theory Spec2Isabelle
  imports Complex_Main
begin

section \<open>Lighthouse CI assertions: packages/utils/src/assertions.js\<close>

text \<open>
  A shallow embedding of the assertion engine. JavaScript numbers are modelled by
  \<open>jsnum\<close>: a finite number carries the real it denotes, and the three non-finite
  numbers are separate constructors. Comparisons, \<^verbatim>\<open>Math.min\<close>, \<^verbatim>\<open>Math.max\<close> and
  sorting are exact on doubles; addition, subtraction and division round their exact
  result to the nearest double (\<open>to_double\<close>, ties to even, overflow to an infinity),
  which is the arithmetic of IEEE 754 on operands that are doubles. A value that may be
  \<^verbatim>\<open>undefined\<close> or \<^verbatim>\<open>null\<close> is an \<open>option\<close>.
\<close>

subsection \<open>Data model\<close>

datatype jsnum = JNum real | PosInf | NegInf | NaN

datatype assertion_type = AuditRan | MinScore | MaxLength | MaxNumericValue

datatype aggregation_method = Optimistic | Pessimistic | Median | MedianRun

datatype level = Off | Warn | Error

text \<open>
  One row of \<^verbatim>\<open>details.items\<close>, with the fields the engine reads: those of the
  rows of Lighthouse's \<^verbatim>\<open>resource-summary\<close> and \<^verbatim>\<open>performance-budget\<close> tables. A
  report is parsed JSON in the shape Lighthouse writes: a field that is present has the
  type Lighthouse gives it (a string for \<^verbatim>\<open>resourceType\<close> and \<^verbatim>\<open>countOverBudget\<close>, a
  number for the others), but the engine reads the fields unvalidated, so each of them
  may be missing (\<open>None\<close>) and each number may be any number. For every other audit
  only the number of rows is read.
\<close>

record item =
  resourceType :: "string option"
  size_val :: "jsnum option"
  requestCount :: "jsnum option"
  sizeOverBudget :: "jsnum option"
  countOverBudget :: "string option"

record audit_details =
  items :: "item list option"

record audit_result =
  score :: "jsnum option"
  scoreDisplayMode :: "string option"
  numericValue :: "jsnum option"
  details :: "audit_details option"
  title :: "string option"
  description :: "string option"

text \<open>The typedef \<^verbatim>\<open>AssertionResult\<close>; \<^verbatim>\<open>AssertionResultNoURL\<close> has \<open>url = None\<close>.\<close>

record assertion_result =
  url :: "string option"
  name :: assertion_type
  operator :: string
  expected :: jsnum
  actual :: jsnum
  "values" :: "real list"
  level :: "level option"
  auditId :: "string option"
  auditProperty :: "string option"
  auditTitle :: "string option"
  auditDocumentationLink :: "string option"

record assertion_options =
  opt_minScore :: "jsnum option"
  opt_maxLength :: "jsnum option"
  opt_maxNumericValue :: "jsnum option"
  opt_aggregationMethod :: "aggregation_method option"

subsection \<open>JavaScript comparisons\<close>

fun js_le :: "jsnum \<Rightarrow> jsnum \<Rightarrow> bool" where
  "js_le NaN _ = False"
| "js_le _ NaN = False"
| "js_le NegInf _ = True"
| "js_le _ PosInf = True"
| "js_le (JNum x) (JNum y) = (x \<le> y)"
| "js_le _ _ = False"

definition js_ge :: "jsnum \<Rightarrow> jsnum \<Rightarrow> bool" where
  "js_ge a b = js_le b a"

definition js_strict_eq :: "jsnum \<Rightarrow> jsnum \<Rightarrow> bool" where
  "js_strict_eq a b = (a \<noteq> NaN \<and> a = b)"

definition starts_with :: "string \<Rightarrow> string \<Rightarrow> bool" where
  "starts_with s p = (take (length p) s = p)"

subsection \<open>Double arithmetic\<close>

text \<open>
  Rounding a real to a double. The doubles are the numbers \<open>m * 2 ^ k\<close> with
  \<open>\<bar>m\<bar> < 2 ^ 53\<close> and \<open>- 1074 \<le> k \<le> 971\<close>. \<open>quantum_exp x (- 1074)\<close> is the
  exponent of the spacing of the doubles around \<open>x\<close>: the least \<open>k\<close> from \<open>- 1074\<close> on
  with \<open>\<bar>x\<bar> < 2 ^ (k + 53)\<close>, and 971 when there is none. \<open>to_double\<close> rounds to the
  nearest multiple of that spacing, a tie to the even multiple; a result of magnitude
  \<open>2 ^ 1024\<close> is an infinity. The sign of zero is not modelled.
\<close>

definition round_half_even :: "real \<Rightarrow> int" where
  "round_half_even y =
     (let f = \<lfloor>y\<rfloor>; d = y - of_int f
      in if d < 1 / 2 then f else if 1 / 2 < d then f + 1 else if even f then f else f + 1)"

function quantum_exp :: "real \<Rightarrow> int \<Rightarrow> int" where
  "quantum_exp x k =
     (if 971 \<le> k \<or> \<bar>x\<bar> < 2 powi (k + 53) then k else quantum_exp x (k + 1))"
  by pat_completeness auto
termination
  by (relation "measure (\<lambda>(x, k). nat (971 - k))") auto

definition to_double :: "real \<Rightarrow> jsnum" where
  "to_double x =
     (let q = 2 powi (quantum_exp x (- 1074));
          r = q * of_int (round_half_even (x / q))
      in if 2 powi 1024 \<le> \<bar>r\<bar> then (if 0 < x then PosInf else NegInf) else JNum r)"

text \<open>\<^verbatim>\<open>a + b\<close>, \<^verbatim>\<open>a - b\<close> and \<^verbatim>\<open>a / 2\<close> on numbers.\<close>

fun js_add :: "jsnum \<Rightarrow> jsnum \<Rightarrow> jsnum" where
  "js_add NaN _ = NaN"
| "js_add _ NaN = NaN"
| "js_add PosInf NegInf = NaN"
| "js_add NegInf PosInf = NaN"
| "js_add PosInf _ = PosInf"
| "js_add _ PosInf = PosInf"
| "js_add NegInf _ = NegInf"
| "js_add _ NegInf = NegInf"
| "js_add (JNum a) (JNum b) = to_double (a + b)"

fun js_sub :: "jsnum \<Rightarrow> jsnum \<Rightarrow> jsnum" where
  "js_sub NaN _ = NaN"
| "js_sub _ NaN = NaN"
| "js_sub PosInf PosInf = NaN"
| "js_sub NegInf NegInf = NaN"
| "js_sub PosInf _ = PosInf"
| "js_sub _ NegInf = PosInf"
| "js_sub NegInf _ = NegInf"
| "js_sub _ PosInf = NegInf"
| "js_sub (JNum a) (JNum b) = to_double (a - b)"

fun js_half :: "jsnum \<Rightarrow> jsnum" where
  "js_half (JNum a) = to_double (a / 2)"
| "js_half v = v"

text \<open>
  The number a value converts to in arithmetic (\<^verbatim>\<open>undefined\<close> is \<^verbatim>\<open>NaN\<close>), and the
  truthiness of a value that is a number or \<^verbatim>\<open>undefined\<close>.
\<close>

fun to_number :: "jsnum option \<Rightarrow> jsnum" where
  "to_number None = NaN"
| "to_number (Some n) = n"

fun js_truthy :: "jsnum option \<Rightarrow> bool" where
  "js_truthy None = False"
| "js_truthy (Some NaN) = False"
| "js_truthy (Some (JNum x)) = (x \<noteq> 0)"
| "js_truthy (Some v) = True"

subsection \<open>Value getters and operators\<close>

fun assertion_type_name :: "assertion_type \<Rightarrow> string" where
  "assertion_type_name AuditRan = ''auditRan''"
| "assertion_type_name MinScore = ''minScore''"
| "assertion_type_name MaxLength = ''maxLength''"
| "assertion_type_name MaxNumericValue = ''maxNumericValue''"

text \<open>
  \<^verbatim>\<open>AUDIT_TYPE_VALUE_GETTERS\<close>, applied to a defined audit result (the parameter type
  of \<^verbatim>\<open>getAssertionResult\<close> is \<^verbatim>\<open>LH.AuditResult[]\<close>, and each of its call sites
  passes defined results only), so the \<^verbatim>\<open>auditRan\<close> getter yields 1. \<open>None\<close> is
  \<^verbatim>\<open>undefined\<close>.
\<close>

fun AUDIT_TYPE_VALUE_GETTERS :: "assertion_type \<Rightarrow> audit_result \<Rightarrow> jsnum option" where
  "AUDIT_TYPE_VALUE_GETTERS AuditRan result = Some (JNum 1)"
| "AUDIT_TYPE_VALUE_GETTERS MinScore result =
     (case score result of
        Some s \<Rightarrow> Some s
      | None \<Rightarrow>
          if scoreDisplayMode result = Some ''notApplicable'' then Some (JNum 1)
          else if scoreDisplayMode result = Some ''informative'' then Some (JNum 0)
          else None)"
| "AUDIT_TYPE_VALUE_GETTERS MaxLength result =
     (case details result of
        None \<Rightarrow> None
      | Some d \<Rightarrow> (case items d of None \<Rightarrow> None | Some its \<Rightarrow> Some (JNum (real (length its)))))"
| "AUDIT_TYPE_VALUE_GETTERS MaxNumericValue result = numericValue result"

fun AUDIT_TYPE_OPERATORS_operator :: "assertion_type \<Rightarrow> string" where
  "AUDIT_TYPE_OPERATORS_operator AuditRan = ''==''"
| "AUDIT_TYPE_OPERATORS_operator MinScore = ''>=''"
| "AUDIT_TYPE_OPERATORS_operator MaxLength = ''<=''"
| "AUDIT_TYPE_OPERATORS_operator MaxNumericValue = ''<=''"

fun AUDIT_TYPE_OPERATORS_passesFn :: "assertion_type \<Rightarrow> jsnum \<Rightarrow> jsnum \<Rightarrow> bool" where
  "AUDIT_TYPE_OPERATORS_passesFn AuditRan a e = js_strict_eq a e"
| "AUDIT_TYPE_OPERATORS_passesFn MinScore a e = js_ge a e"
| "AUDIT_TYPE_OPERATORS_passesFn MaxLength a e = js_le a e"
| "AUDIT_TYPE_OPERATORS_passesFn MaxNumericValue a e = js_le a e"

fun isFiniteNumber :: "jsnum option \<Rightarrow> bool" where
  "isFiniteNumber (Some (JNum x)) = True"
| "isFiniteNumber _ = False"

text \<open>The number inside a value that passed \<open>isFiniteNumber\<close>.\<close>

fun finite_value :: "jsnum option \<Rightarrow> real option" where
  "finite_value (Some (JNum x)) = Some x"
| "finite_value _ = None"

subsection \<open>Aggregation\<close>

text \<open>
  \<^verbatim>\<open>sorted[i]\<close>: an index outside the array reads \<^verbatim>\<open>undefined\<close>, which arithmetic
  turns into \<^verbatim>\<open>NaN\<close>. \<^verbatim>\<open>Math.min()\<close> of no argument is \<^verbatim>\<open>Infinity\<close> and
  \<^verbatim>\<open>Math.max()\<close> is \<^verbatim>\<open>-Infinity\<close>. The comparator \<^verbatim>\<open>(a, b) => a - b\<close> sorts finite
  doubles in ascending order: the rounded difference of two doubles has the sign of
  the exact one.
\<close>

definition js_index :: "real list \<Rightarrow> int \<Rightarrow> real option" where
  "js_index xs i = (if 0 \<le> i \<and> i < int (length xs) then Some (xs ! nat i) else None)"

fun Math_min :: "real list \<Rightarrow> jsnum" where
  "Math_min [] = PosInf"
| "Math_min (x # xs) = JNum (fold min xs x)"

fun Math_max :: "real list \<Rightarrow> jsnum" where
  "Math_max [] = NegInf"
| "Math_max (x # xs) = JNum (fold max xs x)"

definition getValueForAggregationMethod ::
  "real list \<Rightarrow> aggregation_method \<Rightarrow> assertion_type \<Rightarrow> jsnum" where
  "getValueForAggregationMethod vals aggregationMethod assertionType =
     (if aggregationMethod = Median then
        (let medianIndex = (int (length vals) - 1) div 2;
             sorted = sort vals
         in if length vals mod 2 = 1 then
              (case js_index sorted medianIndex of Some v \<Rightarrow> JNum v | None \<Rightarrow> NaN)
            else
              (case (js_index sorted medianIndex, js_index sorted (medianIndex + 1)) of
                 (Some a, Some b) \<Rightarrow> js_half (js_add (JNum a) (JNum b))
               | _ \<Rightarrow> NaN))
      else
        (let useMin =
               ((aggregationMethod = Optimistic \<and>
                   starts_with (assertion_type_name assertionType) ''max'') \<or>
                (aggregationMethod = Pessimistic \<and>
                   starts_with (assertion_type_name assertionType) ''min''))
         in if useMin then Math_min vals else Math_max vals))"

subsection \<open>The generic evaluator\<close>

definition noURL :: "assertion_type \<Rightarrow> jsnum \<Rightarrow> jsnum \<Rightarrow> real list \<Rightarrow> string
    \<Rightarrow> assertion_result" where
  "noURL n e a vs opr =
     \<lparr>url = None, name = n, operator = opr, expected = e, actual = a, values = vs,
      level = None, auditId = None, auditProperty = None, auditTitle = None,
      auditDocumentationLink = None\<rparr>"

definition getAssertionResult ::
  "audit_result list \<Rightarrow> aggregation_method \<Rightarrow> assertion_type \<Rightarrow> jsnum
    \<Rightarrow> assertion_result list" where
  "getAssertionResult auditResults aggregationMethod assertionType expectedValue =
     (let vals = map (AUDIT_TYPE_VALUE_GETTERS assertionType) auditResults;
          filteredValues = filter isFiniteNumber vals
      in if (length filteredValues = 0 \<and> aggregationMethod \<noteq> Pessimistic) \<or>
            (length filteredValues \<noteq> length vals \<and> aggregationMethod = Pessimistic)
         then
           [noURL AuditRan (JNum 1) (JNum 0)
              (map (\<lambda>v. if isFiniteNumber v then 1 else 0) vals) ''=='']
         else
           (let actualValue =
                  getValueForAggregationMethod (List.map_filter finite_value filteredValues)
                    aggregationMethod assertionType
            in if AUDIT_TYPE_OPERATORS_passesFn assertionType actualValue expectedValue then []
               else
                 [noURL assertionType expectedValue actualValue
                    (List.map_filter finite_value filteredValues)
                    (AUDIT_TYPE_OPERATORS_operator assertionType)]))"

definition getAssertionResults ::
  "audit_result option list \<Rightarrow> assertion_options \<Rightarrow> assertion_result list" where
  "getAssertionResults possibleAuditResults options =
     (let aggregation = (case opt_aggregationMethod options of None \<Rightarrow> Optimistic | Some m \<Rightarrow> m)
      in if list_ex (\<lambda>result. result = None) possibleAuditResults then
           [noURL AuditRan (JNum 1) (JNum 0)
              (map (\<lambda>result. if result = None then 0 else 1) possibleAuditResults) ''>='']
         else
           (let auditResults = map the possibleAuditResults;
                results1 =
                  (case opt_maxLength options of
                     None \<Rightarrow> []
                   | Some ml \<Rightarrow> getAssertionResult auditResults aggregation MaxLength ml);
                results2 =
                  (case opt_maxNumericValue options of
                     None \<Rightarrow> []
                   | Some mnv \<Rightarrow> getAssertionResult auditResults aggregation MaxNumericValue mnv);
                hadManualAssertion =
                  (opt_maxLength options \<noteq> None \<or> opt_maxNumericValue options \<noteq> None);
                realMinScore =
                  (if opt_minScore options = None \<and> \<not> hadManualAssertion then Some (JNum 1)
                   else opt_minScore options)
            in results1 @ results2 @
               (case realMinScore of
                  None \<Rightarrow> []
                | Some ms \<Rightarrow> getAssertionResult auditResults aggregation MinScore ms)))"

subsection \<open>The budget deriver\<close>

text \<open>A string or \<^verbatim>\<open>undefined\<close> inside a template literal.\<close>

fun template_string :: "string option \<Rightarrow> string" where
  "template_string None = ''undefined''"
| "template_string (Some s) = s"

definition getAssertionResultsForBudgetRow ::
  "string \<Rightarrow> jsnum option \<Rightarrow> jsnum \<Rightarrow> assertion_result list" where
  "getAssertionResultsForBudgetRow key actualValue expectedValue =
     map (\<lambda>assertion. assertion\<lparr>auditProperty := Some key\<rparr>)
       (getAssertionResult
          [\<lparr>score = Some (JNum 0), scoreDisplayMode = None,
            numericValue = actualValue, details = None, title = None,
            description = None\<rparr>]
          Pessimistic MaxNumericValue expectedValue)"

text \<open>
  \<^verbatim>\<open>countOverBudget.match(/\d+/)\<close>: the first maximal run of decimal digits, if the
  string has a digit; \<^verbatim>\<open>Number\<close> of such a run is its decimal value as a double.
\<close>

definition is_digit :: "char \<Rightarrow> bool" where
  "is_digit c = (c \<in> set ''0123456789'')"

definition match_digits :: "string \<Rightarrow> string option" where
  "match_digits s =
     (let r = dropWhile (\<lambda>c. \<not> is_digit c) s
      in if r = [] then None else Some (takeWhile is_digit r))"

definition Number_of_digits :: "string \<Rightarrow> jsnum" where
  "Number_of_digits ds =
     to_double (real (foldl (\<lambda>n c. 10 * n + (of_char c - 48)) (0::nat) ds))"

text \<open>
  The body of the inner loop, on the state \<open>(results, resultsKeys)\<close>. An optional
  string is truthy when it is present and not empty. The \<^verbatim>\<open>continue\<close> of the count
  branch leaves the state as it is: nothing follows that branch in the loop body.
\<close>

definition budget_row_step ::
  "item \<Rightarrow> assertion_result list \<times> string set \<Rightarrow> assertion_result list \<times> string set" where
  "budget_row_step budgetRow st =
     (let sizeKey = template_string (resourceType budgetRow) @ ''.size'';
          countKey = template_string (resourceType budgetRow) @ ''.count'';
          st1 =
            (if js_truthy (sizeOverBudget budgetRow) \<and> sizeKey \<notin> snd st then
               (let actualValue = size_val budgetRow;
                    expectedValue =
                      js_sub (to_number actualValue) (to_number (sizeOverBudget budgetRow))
                in (fst st @ getAssertionResultsForBudgetRow sizeKey actualValue expectedValue,
                    insert sizeKey (snd st)))
             else st)
      in case countOverBudget budgetRow of
           None \<Rightarrow> st1
         | Some cob \<Rightarrow>
             if cob \<noteq> [] \<and> countKey \<notin> snd st1 then
               (let actualValue = requestCount budgetRow
                in case match_digits cob of
                     None \<Rightarrow> st1
                   | Some overBudgetMatch \<Rightarrow>
                       (let n = Number_of_digits overBudgetMatch;
                            overBudget = (if js_truthy (Some n) then n else JNum 0);
                            expectedValue = js_sub (to_number actualValue) overBudget
                        in (fst st1 @
                              getAssertionResultsForBudgetRow countKey actualValue expectedValue,
                            insert countKey (snd st1))))
             else st1)"

definition getBudgetAssertionResults :: "audit_result list \<Rightarrow> assertion_result list" where
  "getBudgetAssertionResults auditResults =
     fst (fold
            (\<lambda>auditResult st.
               case details auditResult of
                 None \<Rightarrow> st
               | Some d \<Rightarrow> (case items d of None \<Rightarrow> st | Some rows \<Rightarrow> fold budget_row_step rows st))
            auditResults ([], {}))"

subsection \<open>Reports, configuration and the external collaborators\<close>

text \<open>
  A report: \<open>categories\<close> maps a category id to the category's \<^verbatim>\<open>score\<close>
  (\<open>Some None\<close> is a category whose score is \<^verbatim>\<open>null\<close>).
\<close>

record lhr =
  finalUrl :: string
  categories :: "string \<rightharpoonup> jsnum option"
  audits :: "string \<rightharpoonup> audit_result"

text \<open>
  A value of the \<^verbatim>\<open>assertions\<close> object: a level, or a pair of a level and options.
  The object itself is an association list in key order, as \<^verbatim>\<open>Object.keys\<close> reads it.
\<close>

datatype assertion = LevelOnly level | LevelWithOptions level assertion_options

record base_options =
  assertions :: "(string \<times> assertion) list option"
  preset :: "string option"
  matchingUrlPattern :: "string option"
  aggregationMethod :: "aggregation_method option"

record options = base_options +
  budgetsFile :: "string option"
  assertMatrix :: "base_options list option"

datatype md_segment = LinkSegment string string | TextSegment string

datatype js_error = Error_message string | TypeError | SyntaxError | ModuleNotFound string

text \<open>
  The modules that \<^verbatim>\<open>assertions.js\<close> requires and that are not part of this file are
  parameters of the model: \<^verbatim>\<open>_.kebabCase\<close>, \<^verbatim>\<open>new RegExp(pattern).test(url)\<close>
  (\<open>None\<close> when the pattern does not compile), \<^verbatim>\<open>require\<close> of a preset module
  (\<open>None\<close> when there is no such module), \<^verbatim>\<open>_.merge(_.cloneDeep(preset), overrides)\<close>,
  \<^verbatim>\<open>computeRepresentativeRuns\<close> on the degenerate pairs and \<^verbatim>\<open>splitMarkdownLink\<close>.
\<close>

record externals =
  kebabCase :: "string \<Rightarrow> string"
  RegExp_test :: "string \<Rightarrow> string \<Rightarrow> bool option"
  require_preset :: "string \<Rightarrow> base_options option"
  merge_cloneDeep :: "base_options \<Rightarrow> base_options \<Rightarrow> base_options"
  computeRepresentativeRuns :: "lhr list \<Rightarrow> lhr list"
  splitMarkdownLink :: "string \<Rightarrow> md_segment list"

record audit_to_assert =
  ata_assertionKey :: string
  ata_auditId :: string
  ata_auditTitle :: "string option"
  ata_auditDocumentationLink :: "string option"
  ata_auditProperty :: "string list option"

record resolved =
  res_assertions :: "(string \<times> assertion) list"
  res_auditsToAssert :: "audit_to_assert list"
  res_medianLhrs :: "lhr list"
  res_aggregationMethod :: "aggregation_method option"
  res_lhrs :: "lhr list"
  res_url :: string

subsection \<open>Strings and sequences\<close>

fun split_dot :: "string \<Rightarrow> string list" where
  "split_dot [] = [[]]"
| "split_dot (c # cs) =
     (if c = CHR ''.'' then [] # split_dot cs
      else (case split_dot cs of [] \<Rightarrow> [[c]] | w # ws \<Rightarrow> (c # w) # ws))"

fun join_dot :: "string list \<Rightarrow> string" where
  "join_dot [] = []"
| "join_dot [w] = w"
| "join_dot (w # ws) = w @ ''.'' @ join_dot ws"

fun str_includes :: "string \<Rightarrow> string \<Rightarrow> bool" where
  "str_includes [] sub = (sub = [])"
| "str_includes (c # cs) sub = (starts_with (c # cs) sub \<or> str_includes cs sub)"

text \<open>The elements of \<^verbatim>\<open>[...new Set(xs)]\<close>: first occurrences, in order.\<close>

definition uniq :: "'a list \<Rightarrow> 'a list" where
  "uniq xs = rev (remdups (rev xs))"

text \<open>
  \<^verbatim>\<open>preset.match(/lighthouse:(.*)$/)\<close>: the first occurrence of \<^verbatim>\<open>lighthouse:\<close>
  that is followed by no line break up to the end of the string; the capture is what
  follows it.
\<close>

fun preset_match :: "string \<Rightarrow> string option" where
  "preset_match [] = None"
| "preset_match (c # cs) =
     (if starts_with (c # cs) ''lighthouse:'' \<and>
         list_all (\<lambda>x. x \<noteq> CHR 0x0A \<and> x \<noteq> CHR 0x0D) (drop 11 (c # cs))
      then Some (drop 11 (c # cs)) else preset_match cs)"

text \<open>A loop that pushes the results of each round and stops at the first exception.\<close>

fun collect :: "('a \<Rightarrow> js_error + 'b list) \<Rightarrow> 'a list \<Rightarrow> js_error + 'b list" where
  "collect f [] = Inr []"
| "collect f (x # xs) =
     (case f x of
        Inl e \<Rightarrow> Inl e
      | Inr ys \<Rightarrow> (case collect f xs of Inl e \<Rightarrow> Inl e | Inr zs \<Rightarrow> Inr (ys @ zs)))"

text \<open>\<^verbatim>\<open>lhrs.filter(lhr => doesLHRMatchPattern(pattern, lhr))\<close>, where compiling the
  pattern may throw.\<close>

fun filter_matching :: "('a \<Rightarrow> bool option) \<Rightarrow> 'a list \<Rightarrow> js_error + 'a list" where
  "filter_matching t [] = Inr []"
| "filter_matching t (x # xs) =
     (case t x of
        None \<Rightarrow> Inl SyntaxError
      | Some b \<Rightarrow>
          (case filter_matching t xs of
             Inl e \<Rightarrow> Inl e
           | Inr ys \<Rightarrow> Inr (if b then x # ys else ys)))"

text \<open>
  Modelled from the spec: \<^verbatim>\<open>_.groupBy\<close> of the repository's \<^verbatim>\<open>lodash.js\<close>, which is
  not part of the sources at hand; "grouping preserves first-seen order of group keys".
\<close>

definition groupBy :: "'a list \<Rightarrow> ('a \<Rightarrow> 'k) \<Rightarrow> 'a list list" where
  "groupBy xs keyFn = map (\<lambda>k. filter (\<lambda>x. keyFn x = k) xs) (uniq (map keyFn xs))"

subsection \<open>Property reads on plain objects\<close>

text \<open>
  \<^verbatim>\<open>assertions[key]\<close>, \<^verbatim>\<open>lhr.audits[id]\<close> and \<^verbatim>\<open>lhr.categories[id]\<close> read a property of
  a plain object: the object's own property if it has one of that name, else the member
  of \<^verbatim>\<open>Object.prototype\<close> of that name, else \<^verbatim>\<open>undefined\<close>. Each member of
  \<^verbatim>\<open>Object.prototype\<close> is a function (the prototype object itself for \<^verbatim>\<open>__proto__\<close>):
  it is truthy, it is neither a string nor iterable, and none of the properties the
  engine reads from an audit result or a category is defined on it.
\<close>

definition Object_prototype_keys :: "string list" where
  "Object_prototype_keys =
     [''constructor'', ''__defineGetter__'', ''__defineSetter__'', ''hasOwnProperty'',
      ''__lookupGetter__'', ''__lookupSetter__'', ''isPrototypeOf'',
      ''propertyIsEnumerable'', ''toString'', ''valueOf'', ''__proto__'',
      ''toLocaleString'']"

datatype 'a property = Own 'a | Inherited | Missing

definition get_property :: "(string \<rightharpoonup> 'a) \<Rightarrow> string \<Rightarrow> 'a property" where
  "get_property obj key =
     (case obj key of
        Some v \<Rightarrow> Own v
      | None \<Rightarrow> if key \<in> set Object_prototype_keys then Inherited else Missing)"

text \<open>\<^verbatim>\<open>lhr.audits[auditId]\<close>: an inherited member reads as an audit result without fields.\<close>

definition audit_of :: "lhr \<Rightarrow> string \<Rightarrow> audit_result option" where
  "audit_of l auditId' =
     (case get_property (audits l) auditId' of
        Own a \<Rightarrow> Some a
      | Inherited \<Rightarrow>
          Some \<lparr>score = None, scoreDisplayMode = None, numericValue = None, details = None,
                title = None, description = None\<rparr>
      | Missing \<Rightarrow> None)"

subsection \<open>Category and resource-summary derivers, dispatch by audit id\<close>

definition invalid_assertion :: "string list \<Rightarrow> js_error" where
  "invalid_assertion auditProperty' =
     Error_message (''Invalid resource-summary assertion '' @ [CHR 0x22] @
                    join_dot auditProperty' @ [CHR 0x22])"

definition getCategoryAssertionResults ::
  "string list \<Rightarrow> assertion_options \<Rightarrow> lhr list \<Rightarrow> js_error + assertion_result list" where
  "getCategoryAssertionResults auditProperty' assertionOptions lhrs =
     (if length auditProperty' \<noteq> 1 then Inl (invalid_assertion auditProperty')
      else
        (let categoryId = auditProperty' ! 0;
             psuedoAudits =
               map (\<lambda>l. case get_property (categories l) categoryId of
                           Missing \<Rightarrow> None
                         | Inherited \<Rightarrow>
                             Some \<lparr>score = None, scoreDisplayMode = None,
                                   numericValue = None, details = None, title = None,
                                   description = None\<rparr>
                         | Own categoryScore \<Rightarrow>
                             Some \<lparr>score = categoryScore, scoreDisplayMode = None,
                                   numericValue = None, details = None, title = None,
                                   description = None\<rparr>)
                   lhrs
         in Inr (map (\<lambda>result. result\<lparr>auditProperty := Some categoryId\<rparr>)
                   (getAssertionResults psuedoAudits assertionOptions))))"

text \<open>
  \<^verbatim>\<open>getBudgetAssertionResults\<close> reads \<^verbatim>\<open>auditResult.details\<close> of every element; the
  caller's array holds \<^verbatim>\<open>undefined\<close> for a report without the audit, and the read
  throws a TypeError there, so that the call returns nothing.
\<close>

definition getAssertionResultsForAudit ::
  "string \<Rightarrow> string list option \<Rightarrow> audit_result option list \<Rightarrow> assertion_options
    \<Rightarrow> lhr list \<Rightarrow> js_error + assertion_result list" where
  "getAssertionResultsForAudit auditId' auditProperty' auditResults assertionOptions lhrs =
     (if auditId' = ''performance-budget'' then
        (if list_ex (\<lambda>result. result = None) auditResults then Inl TypeError
         else Inr (getBudgetAssertionResults (map the auditResults)))
      else if auditId' = ''categories'' \<and> auditProperty' \<noteq> None then
        getCategoryAssertionResults (the auditProperty') assertionOptions lhrs
      else if auditId' = ''resource-summary'' \<and> auditProperty' \<noteq> None then
        (let prop = the auditProperty'
         in if length prop \<noteq> 2 \<or> prop ! 1 \<notin> {''size'', ''count''}
            then Inl (invalid_assertion prop)
            else
              (let psuedoAuditResults =
                     map (\<lambda>result.
                            case result of
                              None \<Rightarrow> None
                            | Some r \<Rightarrow>
                                (case details r of
                                   None \<Rightarrow> None
                                 | Some d \<Rightarrow>
                                     (case items d of
                                        None \<Rightarrow> None
                                      | Some its \<Rightarrow>
                                          (case find (\<lambda>i. resourceType i = Some (prop ! 0)) its of
                                             None \<Rightarrow> None
                                           | Some i \<Rightarrow>
                                               Some (r\<lparr>numericValue :=
                                                         (if prop ! 1 = ''count''
                                                          then requestCount i
                                                          else size_val i)\<rparr>)))))
                         auditResults
               in Inr (map (\<lambda>result. result\<lparr>auditProperty := Some (join_dot prop)\<rparr>)
                         (getAssertionResults psuedoAuditResults assertionOptions))))
      else Inr (getAssertionResults auditResults assertionOptions))"

subsection \<open>The configuration resolver\<close>

definition audit_to_assert_of :: "externals \<Rightarrow> lhr list \<Rightarrow> string \<Rightarrow> audit_to_assert" where
  "audit_to_assert_of ext lhrs assertionKey =
     (let parts = split_dot assertionKey;
          auditId' = (case parts of [] \<Rightarrow> [] | w # _ \<Rightarrow> w);
          rest = tl parts;
          auditInstances = List.map_filter (\<lambda>l. audit_of l auditId') lhrs;
          failedAudit = find (\<lambda>audit. score audit \<noteq> Some (JNum 1)) auditInstances;
          audit =
            (case failedAudit of
               Some a \<Rightarrow> Some a
             | None \<Rightarrow> (case auditInstances of [] \<Rightarrow> None | a # _ \<Rightarrow> Some a));
          auditTitle' = (case audit of None \<Rightarrow> None | Some a \<Rightarrow> title a);
          description' =
            (case audit of
               None \<Rightarrow> []
             | Some a \<Rightarrow> (case description a of None \<Rightarrow> [] | Some d \<Rightarrow> d));
          auditDocumentationLinkMatches =
            filter (\<lambda>link. str_includes link ''web.dev'' \<or>
                            str_includes link ''developers.google.com/web'')
              (map (\<lambda>segment. case segment of LinkSegment t href \<Rightarrow> href | TextSegment t \<Rightarrow> [])
                 (splitMarkdownLink ext description'))
      in \<lparr>ata_assertionKey = assertionKey, ata_auditId = auditId',
          ata_auditTitle = auditTitle',
          ata_auditDocumentationLink =
            (case auditDocumentationLinkMatches of [] \<Rightarrow> None | l # _ \<Rightarrow> Some l),
          ata_auditProperty = (if rest = [] then None else Some rest)\<rparr>)"

definition resolveAssertionOptionsAndLhrs ::
  "externals \<Rightarrow> base_options \<Rightarrow> lhr list \<Rightarrow> js_error + resolved" where
  "resolveAssertionOptionsAndLhrs ext baseOptions unfilteredLhrs =
     (let preset' = (case preset baseOptions of None \<Rightarrow> [] | Some p \<Rightarrow> p);
          optionOverrides = baseOptions\<lparr>preset := None\<rparr>
      in case (case preset_match preset' of
                 None \<Rightarrow> Inr optionOverrides
               | Some presetName \<Rightarrow>
                   (case require_preset ext presetName of
                      None \<Rightarrow> Inl (ModuleNotFound presetName)
                    | Some presetData \<Rightarrow> Inr (merge_cloneDeep ext presetData optionOverrides)))
         of Inl e \<Rightarrow> Inl e
          | Inr optionsToUse \<Rightarrow>
              (let assertions' = (case assertions optionsToUse of None \<Rightarrow> [] | Some a \<Rightarrow> a)
               in case (case matchingUrlPattern optionsToUse of
                          None \<Rightarrow> Inr unfilteredLhrs
                        | Some urlPattern \<Rightarrow>
                            if urlPattern = [] then Inr unfilteredLhrs
                            else filter_matching (\<lambda>l. RegExp_test ext urlPattern (finalUrl l))
                                   unfilteredLhrs)
                  of Inl e \<Rightarrow> Inl e
                   | Inr lhrs \<Rightarrow>
                       if 1 < length (remdups (map finalUrl lhrs))
                       then Inl (Error_message ''Can only assert one URL at a time!'')
                       else
                         Inr \<lparr>res_assertions = assertions',
                              res_auditsToAssert =
                                map (audit_to_assert_of ext lhrs)
                                  (uniq (map (kebabCase ext) (map fst assertions'))),
                              res_medianLhrs = computeRepresentativeRuns ext lhrs,
                              res_aggregationMethod = aggregationMethod optionsToUse,
                              res_lhrs = lhrs,
                              res_url = (case lhrs of [] \<Rightarrow> [] | l # _ \<Rightarrow> finalUrl l)\<rparr>))"

subsection \<open>Evaluation of one configuration, and the orchestrator\<close>

fun normalizeAssertion :: "assertion option \<Rightarrow> level \<times> assertion_options" where
  "normalizeAssertion None =
     (Off, \<lparr>opt_minScore = None, opt_maxLength = None, opt_maxNumericValue = None,
            opt_aggregationMethod = None\<rparr>)"
| "normalizeAssertion (Some (LevelOnly l)) =
     (l, \<lparr>opt_minScore = None, opt_maxLength = None, opt_maxNumericValue = None,
          opt_aggregationMethod = None\<rparr>)"
| "normalizeAssertion (Some (LevelWithOptions l assertionOptions)) = (l, assertionOptions)"

text \<open>
  \<^verbatim>\<open>const [level, assertionOptions] = normalizeAssertion(assertions[assertionKey])\<close>.
  For an inherited member \<^verbatim>\<open>normalizeAssertion\<close> returns the member itself (it is truthy
  and not a string), and the array destructuring throws a TypeError, as the member is not
  iterable.
\<close>

definition read_assertion ::
  "(string \<times> assertion) list \<Rightarrow> string \<Rightarrow> js_error + level \<times> assertion_options" where
  "read_assertion assertions' assertionKey =
     (case get_property (map_of assertions') assertionKey of
        Own a \<Rightarrow> Inr (normalizeAssertion (Some a))
      | Missing \<Rightarrow> Inr (normalizeAssertion None)
      | Inherited \<Rightarrow> Inl TypeError)"

text \<open>The body of the loop over \<^verbatim>\<open>auditsToAssert\<close>: the results it pushes.\<close>

definition assert_audit :: "resolved \<Rightarrow> audit_to_assert \<Rightarrow> js_error + assertion_result list" where
  "assert_audit r auditToAssert =
     (let assertionKey = ata_assertionKey auditToAssert;
          auditId' = ata_auditId auditToAssert;
          auditProperty' = ata_auditProperty auditToAssert
      in case read_assertion (res_assertions r) assertionKey of
           Inl e \<Rightarrow> Inl e
         | Inr (level', assertionOptions) \<Rightarrow>
         if level' = Off then Inr []
         else
           (let options' =
                  assertionOptions\<lparr>opt_aggregationMethod :=
                    (case opt_aggregationMethod assertionOptions of
                       None \<Rightarrow> res_aggregationMethod r
                     | Some m \<Rightarrow> Some m)\<rparr>;
                lhrsToUseForAudit =
                  (if opt_aggregationMethod options' = Some MedianRun then res_medianLhrs r
                   else res_lhrs r);
                auditResults = map (\<lambda>l. audit_of l auditId') lhrsToUseForAudit
            in case getAssertionResultsForAudit auditId' auditProperty' auditResults options'
                      (res_lhrs r)
               of Inl e \<Rightarrow> Inl e
                | Inr assertionResults \<Rightarrow>
                    Inr (map (\<lambda>result.
                           result\<lparr>auditId := Some auditId', level := Some level',
                                  url := Some (res_url r),
                                  auditTitle :=
                                    (case ata_auditTitle auditToAssert of
                                       None \<Rightarrow> auditTitle result
                                     | Some t \<Rightarrow> if t = [] then auditTitle result else Some t),
                                  auditDocumentationLink :=
                                    (case ata_auditDocumentationLink auditToAssert of
                                       None \<Rightarrow> auditDocumentationLink result
                                     | Some d \<Rightarrow>
                                         if d = [] then auditDocumentationLink result
                                         else Some d)\<rparr>)
                         assertionResults)))"

definition getAllFilteredAssertionResults ::
  "externals \<Rightarrow> base_options \<Rightarrow> lhr list \<Rightarrow> js_error + assertion_result list" where
  "getAllFilteredAssertionResults ext baseOptions unfilteredLhrs =
     (case resolveAssertionOptionsAndLhrs ext baseOptions unfilteredLhrs of
        Inl e \<Rightarrow> Inl e
      | Inr r \<Rightarrow>
          if res_lhrs r = [] then Inr []
          else collect (assert_audit r) (res_auditsToAssert r))"

definition truthy_string :: "string option \<Rightarrow> bool" where
  "truthy_string s = (s \<noteq> None \<and> s \<noteq> Some [])"

definition getAllAssertionResults ::
  "externals \<Rightarrow> options \<Rightarrow> lhr list \<Rightarrow> js_error + assertion_result list" where
  "getAllAssertionResults ext options' lhrs =
     (let groupedByURL = groupBy lhrs finalUrl
      in case (case assertMatrix options' of
                 None \<Rightarrow> Inr [base_options.truncate options']
               | Some matrix \<Rightarrow>
                   if assertions options' \<noteq> None \<or> truthy_string (preset options') \<or>
                      truthy_string (budgetsFile options') \<or> aggregationMethod options' \<noteq> None
                   then Inl (Error_message ''Cannot use assertMatrix with other options'')
                   else Inr matrix)
         of Inl e \<Rightarrow> Inl e
          | Inr arrayOfOptions \<Rightarrow>
              collect (\<lambda>lhrSet.
                         collect (\<lambda>baseOptions.
                                    getAllFilteredAssertionResults ext baseOptions lhrSet)
                           arrayOfOptions)
                groupedByURL)"

subsection \<open>Notions the properties are stated with\<close>

text \<open>The raw value of every report for one assertion kind, and the finite ones.\<close>

definition raw_values :: "assertion_type \<Rightarrow> audit_result list \<Rightarrow> jsnum option list" where
  "raw_values k ars = map (AUDIT_TYPE_VALUE_GETTERS k) ars"

definition finite_values :: "jsnum option list \<Rightarrow> real list" where
  "finite_values raw = List.map_filter finite_value raw"

text \<open>
  The failure-to-measure rule in the specification's words: no finite value and a method
  other than pessimistic, or some value that is not finite and the pessimistic method.
\<close>

definition failure_to_measure :: "jsnum option list \<Rightarrow> aggregation_method \<Rightarrow> bool" where
  "failure_to_measure raw m =
     ((\<not> list_ex isFiniteNumber raw \<and> m \<noteq> Pessimistic) \<or>
      (list_ex (\<lambda>v. \<not> isFiniteNumber v) raw \<and> m = Pessimistic))"

text \<open>
  The median in the specification's words: the middle element of the ascending sort for
  an odd length, the average of the two middle elements for an even length.
\<close>

definition median_spec :: "real list \<Rightarrow> real" where
  "median_spec xs =
     (let s = sort xs; n = length xs
      in if odd n then s ! (n div 2) else (s ! (n div 2 - 1) + s ! (n div 2)) / 2)"

text \<open>The two middle elements of the ascending sort of a sequence of even length.\<close>

definition lower_middle :: "real list \<Rightarrow> real" where
  "lower_middle xs = sort xs ! (length xs div 2 - 1)"

definition upper_middle :: "real list \<Rightarrow> real" where
  "upper_middle xs = sort xs ! (length xs div 2)"

text \<open>A real that is a double: rounding leaves it as it is.\<close>

definition representable :: "real \<Rightarrow> bool" where
  "representable x = (to_double x = JNum x)"

definition effective_aggregation :: "assertion_options \<Rightarrow> aggregation_method" where
  "effective_aggregation options' =
     (case opt_aggregationMethod options' of None \<Rightarrow> Optimistic | Some m \<Rightarrow> m)"

text \<open>The results of the two manual assertions, \<^verbatim>\<open>maxLength\<close> then \<^verbatim>\<open>maxNumericValue\<close>.\<close>

definition manual_results :: "audit_result list \<Rightarrow> assertion_options \<Rightarrow> assertion_result list" where
  "manual_results ars options' =
     (case opt_maxLength options' of
        None \<Rightarrow> []
      | Some ml \<Rightarrow> getAssertionResult ars (effective_aggregation options') MaxLength ml) @
     (case opt_maxNumericValue options' of
        None \<Rightarrow> []
      | Some mnv \<Rightarrow>
          getAssertionResult ars (effective_aggregation options') MaxNumericValue mnv)"

text \<open>The budget rows of a batch in the order the two loops visit them.\<close>

definition budget_rows :: "audit_result list \<Rightarrow> item list" where
  "budget_rows auditResults =
     concat (map (\<lambda>auditResult.
                    case details auditResult of
                      None \<Rightarrow> []
                    | Some d \<Rightarrow> (case items d of None \<Rightarrow> [] | Some rows \<Rightarrow> rows))
                 auditResults)"

text \<open>
  The keys of a row, and the amount over budget of its count: the number that the first
  run of digits of a non-empty \<^verbatim>\<open>countOverBudget\<close> denotes, if there is such a run.
\<close>

definition size_key :: "item \<Rightarrow> string" where
  "size_key budgetRow = template_string (resourceType budgetRow) @ ''.size''"

definition count_key :: "item \<Rightarrow> string" where
  "count_key budgetRow = template_string (resourceType budgetRow) @ ''.count''"

definition count_over :: "item \<Rightarrow> jsnum option" where
  "count_over budgetRow =
     (case countOverBudget budgetRow of
        None \<Rightarrow> None
      | Some cob \<Rightarrow>
          if cob = [] then None
          else (case match_digits cob of
                  None \<Rightarrow> None
                | Some ds \<Rightarrow>
                    Some (if js_truthy (Some (Number_of_digits ds)) then Number_of_digits ds
                          else JNum 0)))"

text \<open>The keys a row adds to \<^verbatim>\<open>resultsKeys\<close> unless they are in it already.\<close>

definition marked_keys :: "item \<Rightarrow> string set" where
  "marked_keys budgetRow =
     (if js_truthy (sizeOverBudget budgetRow) then {size_key budgetRow} else {}) \<union>
     (if count_over budgetRow \<noteq> None then {count_key budgetRow} else {})"

text \<open>The keys that the rows before position \<open>i\<close> mark.\<close>

definition marked_before :: "item list \<Rightarrow> nat \<Rightarrow> string set" where
  "marked_before rows i = (\<Union>budgetRow\<in>set (take i rows). marked_keys budgetRow)"

text \<open>
  What the evaluation of one key of a row surfaces, given the observed value and the
  amount over budget: for a finite observed value \<open>a\<close>, a \<^verbatim>\<open>maxNumericValue\<close> violation
  with actual \<open>a\<close> and expected \<open>a\<close> minus the amount over budget, unless \<open>a\<close> is at most
  the expected value; for an observed value that is missing or not finite, an
  \<^verbatim>\<open>auditRan\<close> result. Either carries the key as its property.
\<close>

definition key_results :: "string \<Rightarrow> jsnum option \<Rightarrow> jsnum \<Rightarrow> assertion_result list" where
  "key_results key observed over =
     (case observed of
        Some (JNum a) \<Rightarrow>
          if js_le (JNum a) (js_sub (JNum a) over) then []
          else [(noURL MaxNumericValue (js_sub (JNum a) over) (JNum a) [a] ''<='')
                  \<lparr>auditProperty := Some key\<rparr>]
      | _ \<Rightarrow> [(noURL AuditRan (JNum 1) (JNum 0) [0] ''=='')\<lparr>auditProperty := Some key\<rparr>])"

text \<open>
  What a row surfaces when the keys in \<open>seen\<close> are marked already: the results for its
  size key and then for its count key, each only if the row marks the key and the key
  is not in \<open>seen\<close>.
\<close>

definition row_results :: "string set \<Rightarrow> item \<Rightarrow> assertion_result list" where
  "row_results seen budgetRow =
     (if js_truthy (sizeOverBudget budgetRow) \<and> size_key budgetRow \<notin> seen
      then key_results (size_key budgetRow) (size_val budgetRow)
             (to_number (sizeOverBudget budgetRow))
      else []) @
     (case count_over budgetRow of
        None \<Rightarrow> []
      | Some over \<Rightarrow>
          if count_key budgetRow \<notin> seen
          then key_results (count_key budgetRow) (requestCount budgetRow) over
          else [])"

subsection \<open>Concrete inputs for the worked examples\<close>

definition no_audit :: audit_result where
  "no_audit =
     \<lparr>score = None, scoreDisplayMode = None, numericValue = None, details = None,
      title = None, description = None\<rparr>"

definition numeric_audit :: "real \<Rightarrow> audit_result" where
  "numeric_audit v = no_audit\<lparr>numericValue := Some (JNum v)\<rparr>"

definition no_options :: assertion_options where
  "no_options =
     \<lparr>opt_minScore = None, opt_maxLength = None, opt_maxNumericValue = None,
      opt_aggregationMethod = None\<rparr>"

definition budget_audit :: "item list \<Rightarrow> audit_result" where
  "budget_audit rows = no_audit\<lparr>details := Some \<lparr>items = Some rows\<rparr>\<rparr>"

definition script_row :: "jsnum option \<Rightarrow> real \<Rightarrow> string option \<Rightarrow> item" where
  "script_row sz over cob =
     \<lparr>resourceType = Some ''script'', size_val = sz, requestCount = Some (JNum 10),
      sizeOverBudget = Some (JNum over), countOverBudget = cob\<rparr>"

definition scored_audit :: "real \<Rightarrow> real \<Rightarrow> audit_result" where
  "scored_audit s v = no_audit\<lparr>score := Some (JNum s), numericValue := Some (JNum v)\<rparr>"

text \<open>
  Modelled from the spec: \<^verbatim>\<open>_.kebabCase\<close> of the repository's \<^verbatim>\<open>lodash.js\<close>, which is
  not part of the sources at hand; "stable case-folding to a canonical dashed form". A
  dash goes between a lower-case letter and the upper-case letter after it, and every
  letter is put in lower case. It stands for the parameter \<open>kebabCase\<close> in the worked
  examples only.
\<close>

definition is_upper :: "char \<Rightarrow> bool" where
  "is_upper c = (c \<in> set ''ABCDEFGHIJKLMNOPQRSTUVWXYZ'')"

definition is_lower :: "char \<Rightarrow> bool" where
  "is_lower c = (c \<in> set ''abcdefghijklmnopqrstuvwxyz'')"

definition to_lower :: "char \<Rightarrow> char" where
  "to_lower c =
     (case map_of (zip ''ABCDEFGHIJKLMNOPQRSTUVWXYZ'' ''abcdefghijklmnopqrstuvwxyz'') c of
        None \<Rightarrow> c
      | Some l \<Rightarrow> l)"

fun kebabCase_model :: "string \<Rightarrow> string" where
  "kebabCase_model (a # b # cs) =
     (if is_lower a \<and> is_upper b then a # CHR ''-'' # kebabCase_model (b # cs)
      else to_lower a # kebabCase_model (b # cs))"
| "kebabCase_model cs = map to_lower cs"

text \<open>
  Stand-ins for the other collaborators in the worked examples: a pattern that is matched
  as a plain substring, no preset module, overrides that win as a whole, the first report
  as the representative run, and descriptions without links.
\<close>

definition example_externals :: externals where
  "example_externals =
     \<lparr>kebabCase = kebabCase_model,
      RegExp_test = (\<lambda>pattern u. Some (str_includes u pattern)),
      require_preset = (\<lambda>presetName. None),
      merge_cloneDeep = (\<lambda>presetData overrides. overrides),
      computeRepresentativeRuns = take 1,
      splitMarkdownLink = (\<lambda>description'. [])\<rparr>"

definition report :: "string \<Rightarrow> (string \<times> audit_result) list \<Rightarrow> lhr" where
  "report u as = \<lparr>finalUrl = u, categories = Map.empty, audits = map_of as\<rparr>"

definition config :: "(string \<times> assertion) list \<Rightarrow> base_options" where
  "config a =
     \<lparr>assertions = Some a, preset = None, matchingUrlPattern = None,
      aggregationMethod = None\<rparr>"

definition matrix_options :: "string option \<Rightarrow> base_options list \<Rightarrow> options" where
  "matrix_options pattern matrix =
     \<lparr>assertions = None, preset = None, matchingUrlPattern = pattern,
      aggregationMethod = None, budgetsFile = None, assertMatrix = Some matrix\<rparr>"

definition fcp_config :: base_options where
  "fcp_config =
     config [(''first-contentful-paint'',
              LevelWithOptions Error (no_options\<lparr>opt_maxNumericValue := Some (JNum 1500)\<rparr>))]"

definition fcp_report :: lhr where
  "fcp_report = report ''http://x'' [(''first-contentful-paint'', numeric_audit 1800)]"

definition fcp_violation :: assertion_result where
  "fcp_violation =
     (noURL MaxNumericValue (JNum 1500) (JNum 1800) [1800] ''<='')
       \<lparr>url := Some ''http://x'', level := Some Error,
        auditId := Some ''first-contentful-paint''\<rparr>"

definition audit_missing :: "string \<Rightarrow> string \<Rightarrow> assertion_result" where
  "audit_missing u auditId' =
     (noURL AuditRan (JNum 1) (JNum 0) [0] ''>='')
       \<lparr>url := Some u, level := Some Error, auditId := Some auditId'\<rparr>"

section \<open>Properties\<close>

subsection \<open>Facts about rounding to a double\<close>

declare quantum_exp.simps [simp del]

lemma quantum_exp_ge: "k \<le> quantum_exp x k"
proof (induction x k rule: quantum_exp.induct)
  case (1 x k)
  show ?case
  proof (cases "971 \<le> k \<or> \<bar>x\<bar> < 2 powi (k + 53)")
    case True
    then show ?thesis by (subst quantum_exp.simps) simp
  next
    case False
    with 1 have "k + 1 \<le> quantum_exp x (k + 1)" by simp
    then show ?thesis using False by (subst quantum_exp.simps) simp
  qed
qed

lemma quantum_exp_le:
  "k \<le> K \<Longrightarrow> \<bar>x\<bar> < 2 powi (K + 53) \<Longrightarrow> quantum_exp x k \<le> K"
proof (induction x k rule: quantum_exp.induct)
  case (1 x k)
  show ?case
  proof (cases "971 \<le> k \<or> \<bar>x\<bar> < 2 powi (k + 53)")
    case True
    then show ?thesis using 1(2) by (subst quantum_exp.simps) simp
  next
    case False
    then have "k \<noteq> K" using 1(3) by auto
    then have "k + 1 \<le> K" using 1(2) by simp
    with 1 False have "quantum_exp x (k + 1) \<le> K" by simp
    then show ?thesis using False by (subst quantum_exp.simps) simp
  qed
qed

lemma quantum_exp_top:
  "k \<le> 971 \<Longrightarrow> 2 powi 1023 \<le> \<bar>x\<bar> \<Longrightarrow> quantum_exp x k = 971"
proof (induction x k rule: quantum_exp.induct)
  case (1 x k)
  show ?case
  proof (cases "971 \<le> k")
    case True
    then show ?thesis using 1(2) by (subst quantum_exp.simps) simp
  next
    case False
    have "(2::real) powi (k + 53) \<le> 2 powi 1023"
      using False by (intro power_int_increasing) auto
    then have n: "\<not> \<bar>x\<bar> < 2 powi (k + 53)" using 1(3) by linarith
    have "quantum_exp x (k + 1) = 971" using 1 False n by simp
    then show ?thesis using False n by (subst quantum_exp.simps) simp
  qed
qed

lemma quantum_exp_eq:
  assumes "k \<le> K" "K \<le> 971" "K = k \<or> 2 powi (K + 52) \<le> \<bar>x\<bar>" "\<bar>x\<bar> < 2 powi (K + 53)"
  shows "quantum_exp x k = K"
  using assms
proof (induction x k rule: quantum_exp.induct)
  case (1 x k)
  show ?case
  proof (cases "K = k")
    case True
    then show ?thesis using 1(5) by (subst quantum_exp.simps) simp
  next
    case False
    then have lt: "k + 1 \<le> K" and lo: "2 powi (K + 52) \<le> \<bar>x\<bar>" using 1(2,4) by auto
    have "(2::real) powi (k + 53) \<le> 2 powi (K + 52)"
      using lt by (intro power_int_increasing) auto
    then have n: "\<not> \<bar>x\<bar> < 2 powi (k + 53)" using lo by linarith
    have k: "\<not> 971 \<le> k" using lt 1(3) by simp
    have "quantum_exp x (k + 1) = K"
      using 1(1) [OF _ lt 1(3) _ 1(5)] k n lo by simp
    then show ?thesis using k n by (subst quantum_exp.simps) simp
  qed
qed

lemma round_half_even_of_int: "round_half_even (of_int n) = n"
  by (simp add: round_half_even_def)

lemma representable_scaled:
  assumes m: "\<bar>m\<bar> < 2 ^ 53" and k: "- 1074 \<le> k" "k \<le> 971"
  shows "to_double (of_int m * 2 powi k) = JNum (of_int m * 2 powi k)"
proof -
  let ?x = "of_int m * (2::real) powi k"
  let ?K = "quantum_exp ?x (- 1074)"
  have "\<bar>?x\<bar> = of_int \<bar>m\<bar> * 2 powi k" by (simp add: abs_mult)
  also have "\<dots> < 2 ^ 53 * 2 powi k"
  proof -
    have "(of_int \<bar>m\<bar> :: real) < 2 ^ 53" using m by (metis of_int_less_numeral_power_cancel_iff)
    then show ?thesis by (simp add: mult_strict_right_mono)
  qed
  also have "\<dots> = 2 powi (k + 53)" by (simp add: power_int_add)
  finally have lt: "\<bar>?x\<bar> < 2 powi (k + 53)" .
  have K: "?K \<le> k" "- 1074 \<le> ?K"
    using quantum_exp_le [OF k(1) lt] quantum_exp_ge [of "- 1074" ?x] by simp_all
  have "?x / 2 powi ?K = of_int m * 2 powi (k - ?K)"
    by (simp add: power_int_diff)
  also have "\<dots> = of_int (m * 2 ^ nat (k - ?K))"
    using K(1) by (simp add: power_int_def)
  finally have q: "?x / 2 powi ?K = of_int (m * 2 ^ nat (k - ?K))" .
  have r: "2 powi ?K * of_int (round_half_even (?x / 2 powi ?K)) = ?x"
    unfolding q round_half_even_of_int unfolding q [symmetric] by simp
  have "(2::real) powi (k + 53) \<le> 2 powi 1024"
    using k(2) by (intro power_int_increasing) auto
  then have "\<not> 2 powi 1024 \<le> \<bar>?x\<bar>" using lt by linarith
  then show ?thesis unfolding to_double_def Let_def r by simp
qed

lemma to_double_int: "\<bar>m\<bar> < 2 ^ 53 \<Longrightarrow> to_double (of_int m) = JNum (of_int m)"
  using representable_scaled [of m 0] by simp

lemma round_half_even_ge:
  assumes "even n" and "of_int n - 1 / 2 \<le> y"
  shows "n \<le> round_half_even y"
proof -
  have f: "n - 1 \<le> \<lfloor>y\<rfloor>" using assms(2) by (simp add: le_floor_iff)
  show ?thesis
  proof (cases "n \<le> \<lfloor>y\<rfloor>")
    case True
    then show ?thesis by (auto simp add: round_half_even_def Let_def)
  next
    case False
    then have fe: "\<lfloor>y\<rfloor> = n - 1" using f by simp
    have "odd (\<lfloor>y\<rfloor>)" unfolding fe using assms(1) by simp
    moreover have "1 / 2 \<le> y - of_int \<lfloor>y\<rfloor>" unfolding fe using assms(2) by simp
    ultimately show ?thesis unfolding round_half_even_def Let_def using fe by auto
  qed
qed

lemma round_half_even_le:
  assumes "even n" and "y \<le> of_int n + 1 / 2"
  shows "round_half_even y \<le> n"
proof -
  have f: "\<lfloor>y\<rfloor> \<le> n" using assms(2) by (simp add: floor_le_iff)
  show ?thesis
  proof (cases "\<lfloor>y\<rfloor> < n")
    case True
    then show ?thesis by (auto simp add: round_half_even_def Let_def)
  next
    case False
    then have fe: "\<lfloor>y\<rfloor> = n" using f by simp
    have "y - of_int \<lfloor>y\<rfloor> \<le> 1 / 2" unfolding fe using assms(2) by simp
    then show ?thesis unfolding round_half_even_def Let_def using fe assms(1) by auto
  qed
qed

lemma to_double_overflow:
  assumes "2 powi 1024 - 2 powi 970 \<le> \<bar>x\<bar>"
  shows "to_double x = (if 0 < x then PosInf else NegInf)"
proof -
  define q :: real where "q = 2 powi 971"
  define n :: int where "n = 2 ^ 53"
  have q: "0 < q" by (simp add: q_def)
  have n: "even n" "0 < n" by (simp_all add: n_def)
  have top: "(2::real) powi 1024 = q * of_int n" by (simp add: q_def n_def)
  have low: "(2::real) powi 970 = q * (1 / 2)" by (simp add: q_def)
  have big: "(2::real) powi 1023 \<le> 2 powi 1024 - 2 powi 970" by simp
  have K: "quantum_exp x (- 1074) = 971"
    using quantum_exp_top [of "- 1074" x] big assms by linarith
  let ?y = "x / q"
  have "q * (of_int n - 1 / 2) \<le> \<bar>x\<bar>"
    using assms unfolding top low by (simp add: algebra_simps)
  then have ay: "of_int n - 1 / 2 \<le> \<bar>?y\<bar>"
    using q by (simp add: abs_divide pos_le_divide_eq mult.commute)
  have r: "n \<le> \<bar>round_half_even ?y\<bar>"
  proof (cases "0 \<le> ?y")
    case True
    then have "of_int n - 1 / 2 \<le> ?y" using ay by simp
    from round_half_even_ge [OF n(1) this] show ?thesis by simp
  next
    case False
    then have "?y \<le> of_int (- n) + 1 / 2" using ay by simp
    from round_half_even_le [OF _ this] n(1) have "round_half_even ?y \<le> - n" by simp
    then show ?thesis by simp
  qed
  have "q * of_int n \<le> q * of_int \<bar>round_half_even ?y\<bar>"
    using r q by simp
  also have "\<dots> = \<bar>q * of_int (round_half_even ?y)\<bar>"
    using q by (simp add: abs_mult)
  finally have "q * of_int n \<le> \<bar>q * of_int (round_half_even ?y)\<bar>" .
  then have "(2::real) powi 1024 \<le> \<bar>q * of_int (round_half_even ?y)\<bar>"
    unfolding top .
  then have "(2::real) powi 1024 \<le>
      \<bar>2 powi 971 * of_int (round_half_even (x / 2 powi 971))\<bar>"
    unfolding q_def .
  then show ?thesis unfolding to_double_def Let_def K by (simp only: if_True)
qed

subsection \<open>Auxiliary facts about the generic evaluator\<close>

lemma filter_empty_iff_not_ex: "(length (filter P xs) = 0) = (\<not> list_ex P xs)"
  by (simp add: list_ex_iff filter_empty_conv)

lemma filter_short_iff_ex: "(length (filter P xs) \<noteq> length xs) = list_ex (\<lambda>v. \<not> P v) xs"
proof -
  have "(length (filter P xs) = length xs) = (\<forall>x\<in>set xs. P x)"
    by (metis filter_id_conv length_filter_less less_irrefl_nat linorder_neqE_nat)
  then show ?thesis by (simp add: list_ex_iff)
qed

lemma finite_values_filter:
  "List.map_filter finite_value (filter isFiniteNumber raw) = finite_values raw"
  unfolding finite_values_def
proof (induction raw)
  case (Cons v vs)
  then show ?case by (cases v rule: isFiniteNumber.cases) (simp_all add: List.map_filter_simps)
qed (simp add: List.map_filter_simps)

lemma length_finite_values: "length (finite_values raw) = length (filter isFiniteNumber raw)"
  unfolding finite_values_def
proof (induction raw)
  case (Cons v vs)
  then show ?case by (cases v rule: isFiniteNumber.cases) (simp_all add: List.map_filter_simps)
qed (simp add: List.map_filter_simps)

text \<open>The evaluator, with its guard written as the failure-to-measure rule.\<close>

lemma getAssertionResult_unfold:
  "getAssertionResult ars m k e =
     (if failure_to_measure (raw_values k ars) m
      then [noURL AuditRan (JNum 1) (JNum 0)
              (map (\<lambda>v. if isFiniteNumber v then 1 else 0) (raw_values k ars)) ''=='']
      else (if AUDIT_TYPE_OPERATORS_passesFn k
                 (getValueForAggregationMethod (finite_values (raw_values k ars)) m k) e
            then []
            else [noURL k e (getValueForAggregationMethod (finite_values (raw_values k ars)) m k)
                    (finite_values (raw_values k ars)) (AUDIT_TYPE_OPERATORS_operator k)]))"
  unfolding getAssertionResult_def failure_to_measure_def Let_def raw_values_def
    filter_empty_iff_not_ex filter_short_iff_ex finite_values_filter
  by simp

lemma half_power_int: "(x::real) / 2 = x * 2 powi (- 1)"
  by (simp add: power_int_minus)

lemma representable_half:
  assumes small: "\<bar>i + j\<bar> < (2::int) ^ 53"
  shows "representable (of_int (i + j))" "representable (of_int (i + j) / 2)"
proof -
  show "representable (of_int (i + j))"
    unfolding representable_def using small by (rule to_double_int)
  have "\<bar>i + j\<bar> < 2 ^ 53 \<Longrightarrow> - 1074 \<le> (- 1 :: int) \<Longrightarrow> (- 1 :: int) \<le> 971 \<Longrightarrow>
    to_double (of_int (i + j) * 2 powi (- 1)) = JNum (of_int (i + j) * 2 powi (- 1))"
    by (rule representable_scaled)
  then have "to_double (of_int (i + j) * 2 powi (- 1)) = JNum (of_int (i + j) * 2 powi (- 1))"
    using small by simp
  then show "representable (of_int (i + j) / 2)"
    unfolding representable_def half_power_int .
qed

lemma median_odd:
  assumes "vals \<noteq> []" and "odd (length vals)"
  shows "getValueForAggregationMethod vals Median k = JNum (median_spec vals)"
proof -
  let ?n = "length vals"
  have n: "0 < ?n" using assms by simp
  have m: "?n mod 2 = 1" using assms(2) by presburger
  have idx: "(int ?n - 1) div 2 = int (?n div 2)" using assms(2) n by presburger
  have lt: "?n div 2 < ?n" using n by simp
  show ?thesis using assms(2) m lt
    by (simp add: getValueForAggregationMethod_def Let_def js_index_def idx median_spec_def)
qed

lemma median_even:
  assumes "vals \<noteq> []" and "even (length vals)"
  shows "getValueForAggregationMethod vals Median k =
           js_half (js_add (JNum (lower_middle vals)) (JNum (upper_middle vals)))"
proof -
  let ?n = "length vals"
  have n: "0 < ?n" using assms by simp
  have m: "?n mod 2 \<noteq> 1" using assms(2) by presburger
  have n2: "2 \<le> ?n" using assms(2) n by presburger
  have idx: "(int ?n - 1) div 2 = int (?n div 2 - 1)" using assms(2) n2 by presburger
  have idx': "int (?n div 2 - 1) + 1 = int (?n div 2)" using n2 by simp
  have lt: "?n div 2 < ?n" "?n div 2 - 1 < ?n" using n by arith+
  show ?thesis using m lt
    unfolding getValueForAggregationMethod_def Let_def js_index_def idx idx'
      lower_middle_def upper_middle_def
    by simp
qed

lemma median_spec_even:
  "even (length vals) \<Longrightarrow> median_spec vals = (lower_middle vals + upper_middle vals) / 2"
  by (simp add: median_spec_def Let_def lower_middle_def upper_middle_def)

lemma Math_min_Min: "vals \<noteq> [] \<Longrightarrow> Math_min vals = JNum (Min (set vals))"
proof (cases vals)
  case (Cons x xs)
  then show ?thesis using Min.set_eq_fold [of x xs] by simp
qed simp

lemma Math_max_Max: "vals \<noteq> [] \<Longrightarrow> Math_max vals = JNum (Max (set vals))"
proof (cases vals)
  case (Cons x xs)
  then show ?thesis using Max.set_eq_fold [of x xs] by simp
qed simp

lemma ones_aggregate:
  assumes "vals \<noteq> []" and "\<forall>x\<in>set vals. x = 1"
  shows "getValueForAggregationMethod vals m k = JNum 1"
proof (cases "m = Median")
  case True
  have s: "set (sort vals) = set vals" by simp
  have len: "length (sort vals) = length vals" by simp
  have nth: "i < length vals \<Longrightarrow> sort vals ! i = 1" for i
    using assms(2) s len by (metis nth_mem)
  have n: "0 < length vals" using assms(1) by simp
  have lt: "length vals div 2 < length vals" "length vals div 2 - 1 < length vals"
    using n by arith+
  have two: "to_double 2 = JNum 2" and one: "to_double 1 = JNum 1"
    using to_double_int [of 2] to_double_int [of 1] by simp_all
  show ?thesis
  proof (cases "odd (length vals)")
    case odd: True
    show ?thesis using True median_odd [OF assms(1) odd, of k] nth [OF lt(1)] odd
      by (simp add: median_spec_def Let_def)
  next
    case False
    then show ?thesis using True median_even [OF assms(1), of k] nth [OF lt(1)] nth [OF lt(2)]
      by (simp add: lower_middle_def upper_middle_def two one)
  qed
next
  case False
  have "set vals = {1}" using assms by (cases vals) auto
  then show ?thesis using False assms(1)
    by (simp add: getValueForAggregationMethod_def Math_min_Min Math_max_Max)
qed

lemma auditRan_kind_actual:
  assumes "\<not> failure_to_measure (raw_values AuditRan ars) m"
  shows "getValueForAggregationMethod (finite_values (raw_values AuditRan ars)) m AuditRan \<noteq> JNum 0"
proof (cases ars)
  case Nil
  then have "m = Pessimistic" using assms by (simp add: failure_to_measure_def raw_values_def)
  then show ?thesis using Nil
    by (simp add: raw_values_def finite_values_def List.map_filter_simps
        getValueForAggregationMethod_def starts_with_def)
next
  case (Cons a as)
  have fv: "finite_values (raw_values AuditRan ars) = replicate (length ars) 1"
    unfolding raw_values_def finite_values_def
    by (induction ars) (simp_all add: List.map_filter_simps)
  have "getValueForAggregationMethod (replicate (length ars) 1) m AuditRan = JNum 1"
    by (rule ones_aggregate) (simp_all add: Cons)
  then show ?thesis by (simp add: fv)
qed

lemma map_the_Some: "map the (map Some xs) = xs"
  by (induction xs) simp_all

lemma no_undefined: "\<not> list_ex (\<lambda>result. result = None) (map Some xs)"
  by (simp add: list_ex_iff)

lemma getAssertionResult_names:
  "r \<in> set (getAssertionResult ars m k e) \<Longrightarrow> name r = AuditRan \<or> name r = k"
  by (auto simp add: getAssertionResult_unfold noURL_def split: if_splits)

lemma manual_results_names:
  "r \<in> set (manual_results ars opts) \<Longrightarrow> name r \<noteq> MinScore"
  by (auto simp add: manual_results_def split: option.splits dest: getAssertionResult_names)

subsection \<open>The operator of an \<^verbatim>\<open>auditRan\<close> result\<close>

text \<open>
  C1, on the code: every result of \<^verbatim>\<open>getAssertionResult\<close> carries the operator that the
  table gives for its name, but when some report lacks the audit
  \<^verbatim>\<open>getAssertionResults\<close> returns one result named \<^verbatim>\<open>auditRan\<close> whose operator is
  \<^verbatim>\<open>>=\<close>, while the table gives \<^verbatim>\<open>==\<close> for that name: the operator of a result is not
  always the one of its name.
\<close>

theorem getAssertionResults_undefined_operator:
  assumes "list_ex (\<lambda>result. result = None) possibleAuditResults"
  shows "map (\<lambda>r. (name r, operator r)) (getAssertionResults possibleAuditResults opts) =
           [(AuditRan, ''>='')] \<and>
         AUDIT_TYPE_OPERATORS_operator AuditRan = ''=='' \<and>
         (\<forall>r\<in>set (getAssertionResult ars m k e).
            operator r = AUDIT_TYPE_OPERATORS_operator (name r))"
  using assms
  by (simp add: getAssertionResults_def getAssertionResult_unfold noURL_def)

theorem getAssertionResults_undefined_operator_witness:
  "getAssertionResults [None] no_options = [noURL AuditRan (JNum 1) (JNum 0) [0] ''>=''] \<and>
   map (\<lambda>r. (name r, operator r)) (getAssertionResults [None] no_options) =
     [(AuditRan, ''>='')] \<and>
   AUDIT_TYPE_OPERATORS_operator AuditRan \<noteq> ''>=''"
  using getAssertionResults_undefined_operator [of "[None]" no_options "[]" Optimistic MinScore NaN]
  by (simp add: getAssertionResults_def noURL_def)

subsection \<open>The \<^verbatim>\<open>values\<close> of a result\<close>

text \<open>
  C2 as stated fails: under the optimistic method, two reports of which the first has no
  numeric value give a \<^verbatim>\<open>maxNumericValue\<close> violation whose \<^verbatim>\<open>values\<close> has one entry.
\<close>

theorem getAssertionResult_values_counterexample:
  "getAssertionResult [no_audit, numeric_audit 1800] Optimistic MaxNumericValue (JNum 1500) =
     [noURL MaxNumericValue (JNum 1500) (JNum 1800) [1800] ''<=''] \<and>
   length [1800 :: real] \<noteq> length [no_audit, numeric_audit 1800]"
  by (simp add: getAssertionResult_def no_audit_def numeric_audit_def Let_def
      List.map_filter_simps getValueForAggregationMethod_def starts_with_def)

text \<open>
  C2, amended: a result of the failure-to-measure rule is named \<^verbatim>\<open>auditRan\<close> and has one
  entry per report; a kind-specific violation carries the finite raw values in report
  order, so it has one entry per report whose raw value is finite, at most one per
  report, and exactly one per report if and only if every raw value is finite, which is
  always so under the pessimistic method.
\<close>

theorem getAssertionResult_values_length:
  "\<forall>r\<in>set (getAssertionResult ars m k e).
     (if failure_to_measure (raw_values k ars) m
      then name r = AuditRan \<and> length (values r) = length ars
      else name r = k \<and> values r = finite_values (raw_values k ars) \<and>
           length (values r) = length (filter isFiniteNumber (raw_values k ars)) \<and>
           length (values r) \<le> length ars \<and>
           (length (values r) = length ars \<longleftrightarrow>
              (\<forall>v\<in>set (raw_values k ars). isFiniteNumber v)) \<and>
           (m = Pessimistic \<longrightarrow> length (values r) = length ars))"
proof -
  let ?raw = "raw_values k ars"
  have len: "length ?raw = length ars" by (simp add: raw_values_def)
  have le: "length (filter isFiniteNumber ?raw) \<le> length ars"
    using length_filter_le [of isFiniteNumber ?raw] len by simp
  have eq: "(length (filter isFiniteNumber ?raw) = length ars) = (\<forall>v\<in>set ?raw. isFiniteNumber v)"
    using filter_short_iff_ex [of isFiniteNumber ?raw] len by (simp add: list_ex_iff) blast
  have pess: "\<not> failure_to_measure ?raw Pessimistic \<Longrightarrow> \<forall>v\<in>set ?raw. isFiniteNumber v"
    by (auto simp add: failure_to_measure_def list_ex_iff)
  show ?thesis
  proof (cases "failure_to_measure ?raw m")
    case True
    then show ?thesis by (simp add: getAssertionResult_unfold noURL_def len)
  next
    case False
    then show ?thesis using le eq pess
      by (auto simp add: getAssertionResult_unfold noURL_def length_finite_values)
  qed
qed

theorem getAssertionResult_values_length_witness:
  "getAssertionResult [no_audit, numeric_audit 1800] Pessimistic MaxNumericValue (JNum 1500) =
     [noURL AuditRan (JNum 1) (JNum 0) [0, 1] ''==''] \<and>
   getAssertionResult [numeric_audit 1200, numeric_audit 1800] Pessimistic MaxNumericValue
       (JNum 1500) =
     [noURL MaxNumericValue (JNum 1500) (JNum 1800) [1200, 1800] ''<='']"
  using getAssertionResult_values_length
    [of "[no_audit, numeric_audit 1800]" Pessimistic MaxNumericValue "JNum 1500"]
    getAssertionResult_values_length
    [of "[numeric_audit 1200, numeric_audit 1800]" Pessimistic MaxNumericValue "JNum 1500"]
  by (simp add: getAssertionResult_def no_audit_def numeric_audit_def Let_def
      List.map_filter_simps getValueForAggregationMethod_def starts_with_def)

subsection \<open>The failure-to-measure rule\<close>

text \<open>
  C3: \<^verbatim>\<open>getAssertionResult\<close> returns exactly one \<^verbatim>\<open>auditRan\<close> result with expected 1
  and actual 0 if and only if the failure-to-measure rule applies (no finite raw value and
  a method other than pessimistic, or a raw value that is not finite and the pessimistic
  method); the result is then independent of the kind's comparison and of the threshold,
  and its values mark each report 1 when its raw value is finite and 0 otherwise.
\<close>

theorem getAssertionResult_failure_to_measure:
  "((\<exists>r. getAssertionResult ars m k e = [r] \<and> name r = AuditRan \<and>
         expected r = JNum 1 \<and> actual r = JNum 0)
      \<longleftrightarrow> failure_to_measure (raw_values k ars) m) \<and>
   (failure_to_measure (raw_values k ars) m \<longrightarrow>
      getAssertionResult ars m k e =
        [noURL AuditRan (JNum 1) (JNum 0)
           (map (\<lambda>v. if isFiniteNumber v then 1 else 0) (raw_values k ars)) ''==''])"
proof (cases "failure_to_measure (raw_values k ars) m")
  case True
  then show ?thesis by (simp add: getAssertionResult_unfold noURL_def)
next
  case False
  have "\<not> (\<exists>r. getAssertionResult ars m k e = [r] \<and> name r = AuditRan \<and>
         expected r = JNum 1 \<and> actual r = JNum 0)"
  proof (cases "k = AuditRan")
    case True
    with False auditRan_kind_actual [of ars m] show ?thesis
      by (auto simp add: getAssertionResult_unfold noURL_def split: if_splits)
  next
    case k: False
    with False show ?thesis
      by (auto simp add: getAssertionResult_unfold noURL_def split: if_splits)
  qed
  with False show ?thesis by simp
qed

theorem getAssertionResult_failure_to_measure_witness:
  "failure_to_measure (raw_values MaxNumericValue [no_audit, numeric_audit 1800]) Pessimistic \<and>
   getAssertionResult [no_audit, numeric_audit 1800] Pessimistic MaxNumericValue (JNum 1500) =
     [noURL AuditRan (JNum 1) (JNum 0) [0, 1] ''==''] \<and>
   \<not> failure_to_measure (raw_values MaxNumericValue [no_audit, numeric_audit 1800]) Optimistic \<and>
   getAssertionResult [no_audit, numeric_audit 1800] Optimistic MaxNumericValue (JNum 1500) =
     [noURL MaxNumericValue (JNum 1500) (JNum 1800) [1800] ''<='']"
  using getAssertionResult_failure_to_measure
    [of "[no_audit, numeric_audit 1800]" Pessimistic MaxNumericValue "JNum 1500"]
  by (simp add: getAssertionResult_def no_audit_def numeric_audit_def Let_def
      failure_to_measure_def raw_values_def
      List.map_filter_simps getValueForAggregationMethod_def starts_with_def)

subsection \<open>Aggregation\<close>

lemma length_filter_sort: "length (filter P (sort xs)) = length (filter P xs)"
  by (simp add: filter_sort)

lemma sorted_prefix_le:
  assumes "sorted s" and "i < length s" and "s ! i \<le> (m::real)"
  shows "Suc i \<le> length (filter (\<lambda>x. x \<le> m) s)"
proof -
  have all: "\<forall>x\<in>set (take (Suc i) s). x \<le> m"
  proof
    fix x assume "x \<in> set (take (Suc i) s)"
    then obtain j where j: "j < Suc i" "x = s ! j"
      using assms(2) by (auto simp add: in_set_conv_nth)
    then have "s ! j \<le> s ! i" using assms(1,2) by (simp add: sorted_nth_mono)
    then show "x \<le> m" using j assms(3) by simp
  qed
  have "filter (\<lambda>x. x \<le> m) s =
        filter (\<lambda>x. x \<le> m) (take (Suc i) s) @ filter (\<lambda>x. x \<le> m) (drop (Suc i) s)"
    by (metis append_take_drop_id filter_append)
  moreover have "filter (\<lambda>x. x \<le> m) (take (Suc i) s) = take (Suc i) s"
    using all by simp
  ultimately have "length (filter (\<lambda>x. x \<le> m) s) \<ge> length (take (Suc i) s)"
    by simp
  then show ?thesis using assms(2) by simp
qed

lemma sorted_suffix_ge:
  assumes "sorted s" and "i < length s" and "(m::real) \<le> s ! i"
  shows "length s - i \<le> length (filter (\<lambda>x. m \<le> x) s)"
proof -
  have all: "\<forall>x\<in>set (drop i s). m \<le> x"
  proof
    fix x assume "x \<in> set (drop i s)"
    then obtain j where j: "j < length s - i" "x = s ! (i + j)"
      by (auto simp add: in_set_conv_nth)
    then have "s ! i \<le> s ! (i + j)" using assms(1) by (simp add: sorted_nth_mono)
    then show "m \<le> x" using j assms(3) by simp
  qed
  have "filter (\<lambda>x. m \<le> x) s =
        filter (\<lambda>x. m \<le> x) (take i s) @ filter (\<lambda>x. m \<le> x) (drop i s)"
    by (metis append_take_drop_id filter_append)
  moreover have "filter (\<lambda>x. m \<le> x) (drop i s) = drop i s"
    using all by simp
  ultimately have "length (filter (\<lambda>x. m \<le> x) s) \<ge> length (drop i s)"
    by simp
  then show ?thesis by simp
qed

lemma median_spec_rank:
  assumes "vals \<noteq> []"
  shows "length vals \<le> 2 * length (filter (\<lambda>x. x \<le> median_spec vals) vals) \<and>
         length vals \<le> 2 * length (filter (\<lambda>x. median_spec vals \<le> x) vals)"
proof -
  let ?s = "sort vals" and ?n = "length vals" and ?m = "median_spec vals"
  have n: "0 < ?n" using assms by simp
  have len: "length ?s = ?n" by simp
  have srt: "sorted ?s" by simp
  define lo where "lo = (?n - 1) div 2"
  define hi where "hi = ?n div 2"
  have lohi: "lo \<le> hi" "hi < ?n" "lo < ?n" "?n \<le> 2 * Suc lo" "?n \<le> 2 * (?n - hi)"
    using n unfolding lo_def hi_def by presburger+
  have le: "?s ! lo \<le> ?s ! hi" using srt lohi len by (simp add: sorted_nth_mono)
  have m: "?s ! lo \<le> ?m \<and> ?m \<le> ?s ! hi"
  proof (cases "odd ?n")
    case True
    then have "lo = hi" using n unfolding lo_def hi_def by presburger
    then show ?thesis using True by (simp add: median_spec_def Let_def hi_def)
  next
    case False
    then have "lo = hi - 1" using n unfolding lo_def hi_def by presburger
    then show ?thesis using False le by (simp add: median_spec_def Let_def hi_def field_simps)
  qed
  have a: "Suc lo \<le> length (filter (\<lambda>x. x \<le> ?m) ?s)"
    using sorted_prefix_le [OF srt _ conjunct1 [OF m]] lohi len by simp
  have b: "?n - hi \<le> length (filter (\<lambda>x. ?m \<le> x) ?s)"
    using sorted_suffix_ge [OF srt _ conjunct2 [OF m]] lohi len by simp
  show ?thesis using a b lohi by (simp add: length_filter_sort)
qed

text \<open>
  C4 as stated fails: the average of two finite doubles whose sum is beyond the largest
  double is \<^verbatim>\<open>Infinity\<close> in the code, and the sum \<open>1 + 2 ^ 53\<close> is rounded before it is
  halved.
\<close>

theorem getValueForAggregationMethod_median_counterexample:
  "getValueForAggregationMethod [2 ^ 1023, 2 ^ 1023] Median MaxNumericValue = PosInf \<and>
   median_spec [2 ^ 1023, 2 ^ 1023] = 2 ^ 1023 \<and>
   getValueForAggregationMethod [1, 2 ^ 53] Median MaxNumericValue = JNum (2 ^ 52) \<and>
   median_spec [1, 2 ^ 53] = 2 ^ 52 + 1 / 2"
proof -
  have inf: "to_double (2 ^ 1023 + 2 ^ 1023) = PosInf"
    using to_double_overflow [of "2 ^ 1023 + 2 ^ 1023"] by simp
  have q: "quantum_exp (1 + 2 ^ 53) (- 1074) = 1"
    by (rule quantum_exp_eq) simp_all
  have "round_half_even ((1 + 2 ^ 53) / 2 powi 1) = 2 ^ 52"
    by (simp add: round_half_even_def Let_def add_divide_distrib)
  then have r: "to_double (1 + 2 ^ 53) = JNum (2 ^ 53)"
    unfolding to_double_def Let_def q by simp
  have h: "to_double (2 ^ 52) = JNum (2 ^ 52)"
    using to_double_int [of "2 ^ 52"] by simp
  have a: "getValueForAggregationMethod [2 ^ 1023, 2 ^ 1023] Median MaxNumericValue = PosInf"
    using median_even [of "[2 ^ 1023, 2 ^ 1023]" MaxNumericValue] inf
    by (simp add: lower_middle_def upper_middle_def)
  have b: "getValueForAggregationMethod [1, 2 ^ 53] Median MaxNumericValue = JNum (2 ^ 52)"
    using median_even [of "[1, 2 ^ 53]" MaxNumericValue] r h
    by (simp add: lower_middle_def upper_middle_def)
  show ?thesis using a b by (simp add: median_spec_def)
qed

text \<open>
  C4, amended: for a non-empty sequence of finite numbers the median method returns the
  middle element of the ascending sort when the length is odd. When the length is even
  it returns \<^verbatim>\<open>(a + b) / 2\<close>, in double arithmetic, of the two middle elements: the exact
  average when \<open>a + b\<close> and its half are doubles, which is so when \<open>a\<close> and \<open>b\<close> are
  integers with \<open>\<bar>a + b\<bar> < 2 ^ 53\<close>, and an infinity when the magnitude of \<open>a + b\<close> is
  at least \<open>2 ^ 1024 - 2 ^ 970\<close>. The exact median has at least half of the values at
  most it and at least half of them at least it.
\<close>

theorem getValueForAggregationMethod_median:
  assumes "vals \<noteq> []"
  shows "(odd (length vals) \<longrightarrow>
            getValueForAggregationMethod vals Median k = JNum (median_spec vals)) \<and>
         (even (length vals) \<longrightarrow>
            getValueForAggregationMethod vals Median k =
              js_half (js_add (JNum (lower_middle vals)) (JNum (upper_middle vals)))) \<and>
         (even (length vals) \<and> representable (lower_middle vals + upper_middle vals) \<and>
          representable ((lower_middle vals + upper_middle vals) / 2) \<longrightarrow>
            getValueForAggregationMethod vals Median k = JNum (median_spec vals)) \<and>
         (\<forall>i j. even (length vals) \<and> lower_middle vals = of_int i \<and>
            upper_middle vals = of_int j \<and> \<bar>i + j\<bar> < 2 ^ 53 \<longrightarrow>
            getValueForAggregationMethod vals Median k = JNum (median_spec vals)) \<and>
         (even (length vals) \<and>
          2 powi 1024 - 2 powi 970 \<le> \<bar>lower_middle vals + upper_middle vals\<bar> \<longrightarrow>
            getValueForAggregationMethod vals Median k =
              (if 0 < lower_middle vals + upper_middle vals then PosInf else NegInf)) \<and>
         length vals \<le> 2 * length (filter (\<lambda>x. x \<le> median_spec vals) vals) \<and>
         length vals \<le> 2 * length (filter (\<lambda>x. median_spec vals \<le> x) vals)"
proof -
  let ?s = "lower_middle vals + upper_middle vals"
  have a: "odd (length vals) \<longrightarrow>
      getValueForAggregationMethod vals Median k = JNum (median_spec vals)"
    using median_odd [OF assms] by simp
  have b: "even (length vals) \<longrightarrow>
      getValueForAggregationMethod vals Median k =
        js_half (js_add (JNum (lower_middle vals)) (JNum (upper_middle vals)))"
    using median_even [OF assms] by simp
  have c: "even (length vals) \<and> representable ?s \<and> representable (?s / 2) \<longrightarrow>
      getValueForAggregationMethod vals Median k = JNum (median_spec vals)"
    using median_even [OF assms, of k]
    by (simp add: representable_def median_spec_even)
  have d: "even (length vals) \<and> 2 powi 1024 - 2 powi 970 \<le> \<bar>?s\<bar> \<longrightarrow>
      getValueForAggregationMethod vals Median k = (if 0 < ?s then PosInf else NegInf)"
  proof (intro impI, elim conjE)
    assume e: "even (length vals)" and o: "2 powi 1024 - 2 powi 970 \<le> \<bar>?s\<bar>"
    show "getValueForAggregationMethod vals Median k = (if 0 < ?s then PosInf else NegInf)"
      unfolding median_even [OF assms e] js_add.simps to_double_overflow [OF o] by simp
  qed
  have e: "\<forall>i j. even (length vals) \<and> lower_middle vals = of_int i \<and>
      upper_middle vals = of_int j \<and> \<bar>i + j\<bar> < 2 ^ 53 \<longrightarrow>
      getValueForAggregationMethod vals Median k = JNum (median_spec vals)"
  proof (intro allI impI, elim conjE)
    fix i j :: int
    assume ev: "even (length vals)" and i: "lower_middle vals = of_int i"
      and j: "upper_middle vals = of_int j" and small: "\<bar>i + j\<bar> < 2 ^ 53"
    have s: "?s = of_int (i + j)" by (simp add: i j)
    have r1: "representable ?s" and r2: "representable (?s / 2)"
      unfolding s using small by (rule representable_half)+
    from c ev r1 r2
    show "getValueForAggregationMethod vals Median k = JNum (median_spec vals)" by blast
  qed
  from a b c d e median_spec_rank [OF assms] show ?thesis by blast
qed

theorem getValueForAggregationMethod_median_witness:
  "getValueForAggregationMethod [3, 1, 2] Median MaxNumericValue = JNum 2 \<and>
   getValueForAggregationMethod [4, 1, 3, 2] Median MinScore = JNum (5 / 2) \<and>
   representable (2 + 3) \<and> representable ((2 + 3) / 2)"
proof -
  have five: "to_double 5 = JNum 5"
    using to_double_int [of 5] by simp
  have half: "to_double (5 / 2) = JNum (5 / 2)"
    using representable_scaled [of 5 "- 1"] by simp
  have mid: "lower_middle [4, 1, 3, 2] = 2" "upper_middle [4, 1, 3, 2] = 3"
    by (simp_all add: lower_middle_def upper_middle_def)
  have odd: "getValueForAggregationMethod [3, 1, 2] Median MaxNumericValue = JNum 2"
    using getValueForAggregationMethod_median [of "[3, 1, 2]" MaxNumericValue]
    by (simp add: median_spec_def)
  have even: "getValueForAggregationMethod [4, 1, 3, 2] Median MinScore = JNum (5 / 2)"
    using getValueForAggregationMethod_median [of "[4, 1, 3, 2]" MinScore] five half
    by (simp add: mid median_spec_even representable_def)
  from odd even five half show ?thesis by (simp add: representable_def)
qed

text \<open>
  C5: for a non-empty sequence of finite numbers and every kind, the optimistic and the
  pessimistic method return the minimum when the method is optimistic and the kind's
  name starts with \<^verbatim>\<open>max\<close>, or the method is pessimistic and the name starts with
  \<^verbatim>\<open>min\<close>, and the maximum in every other case.
\<close>

theorem getValueForAggregationMethod_min_max:
  assumes "vals \<noteq> []" and "m = Optimistic \<or> m = Pessimistic"
  shows "getValueForAggregationMethod vals m k =
     JNum (if (m = Optimistic \<and> starts_with (assertion_type_name k) ''max'') \<or>
              (m = Pessimistic \<and> starts_with (assertion_type_name k) ''min'')
           then Min (set vals) else Max (set vals))"
  using assms
  by (auto simp add: getValueForAggregationMethod_def Math_min_Min Math_max_Max)

theorem getValueForAggregationMethod_min_max_witness:
  "getValueForAggregationMethod [1200, 1800] Optimistic MaxNumericValue = JNum 1200 \<and>
   getValueForAggregationMethod [1200, 1800] Pessimistic MaxNumericValue = JNum 1800 \<and>
   getValueForAggregationMethod [1200, 1800] Optimistic MinScore = JNum 1800 \<and>
   getValueForAggregationMethod [1200, 1800] Pessimistic MinScore = JNum 1200 \<and>
   getValueForAggregationMethod [1200, 1800] Pessimistic AuditRan = JNum 1800"
  using getValueForAggregationMethod_min_max [of "[1200, 1800]" Optimistic MaxNumericValue]
    getValueForAggregationMethod_min_max [of "[1200, 1800]" Pessimistic MaxNumericValue]
    getValueForAggregationMethod_min_max [of "[1200, 1800]" Optimistic MinScore]
    getValueForAggregationMethod_min_max [of "[1200, 1800]" Pessimistic MinScore]
    getValueForAggregationMethod_min_max [of "[1200, 1800]" Pessimistic AuditRan]
  by (simp add: starts_with_def)

subsection \<open>Per-audit assembly\<close>

text \<open>
  C6: with every audit result defined, when \<^verbatim>\<open>minScore\<close>, \<^verbatim>\<open>maxLength\<close> and
  \<^verbatim>\<open>maxNumericValue\<close> are all absent the result is that of a \<^verbatim>\<open>minScore\<close> assertion with
  expected value 1; when \<^verbatim>\<open>minScore\<close> is set it is evaluated with that value, after the
  manual assertions; when \<^verbatim>\<open>minScore\<close> is absent and a manual assertion is configured,
  only the manual assertions are evaluated and no result is named \<^verbatim>\<open>minScore\<close>.
\<close>

theorem getAssertionResults_minScore_default:
  "(opt_minScore opts = None \<and> opt_maxLength opts = None \<and>
      opt_maxNumericValue opts = None \<longrightarrow>
      getAssertionResults (map Some ars) opts =
        getAssertionResult ars (effective_aggregation opts) MinScore (JNum 1)) \<and>
   (\<forall>s. opt_minScore opts = Some s \<longrightarrow>
      getAssertionResults (map Some ars) opts =
        manual_results ars opts @
        getAssertionResult ars (effective_aggregation opts) MinScore s) \<and>
   (opt_minScore opts = None \<and>
      (opt_maxLength opts \<noteq> None \<or> opt_maxNumericValue opts \<noteq> None) \<longrightarrow>
      getAssertionResults (map Some ars) opts = manual_results ars opts \<and>
      (\<forall>r\<in>set (getAssertionResults (map Some ars) opts). name r \<noteq> MinScore))"
proof -
  have unfold: "getAssertionResults (map Some ars) opts =
      manual_results ars opts @
      (case (if opt_minScore opts = None \<and>
                \<not> (opt_maxLength opts \<noteq> None \<or> opt_maxNumericValue opts \<noteq> None)
             then Some (JNum 1) else opt_minScore opts) of
         None \<Rightarrow> []
       | Some ms \<Rightarrow> getAssertionResult ars (effective_aggregation opts) MinScore ms)"
    unfolding getAssertionResults_def Let_def manual_results_def effective_aggregation_def
      map_the_Some
    using no_undefined [of ars] by simp
  have a: "opt_minScore opts = None \<and> opt_maxLength opts = None \<and>
      opt_maxNumericValue opts = None \<longrightarrow>
      getAssertionResults (map Some ars) opts =
        getAssertionResult ars (effective_aggregation opts) MinScore (JNum 1)"
    unfolding unfold by (simp add: manual_results_def)
  have b: "\<forall>s. opt_minScore opts = Some s \<longrightarrow>
      getAssertionResults (map Some ars) opts =
        manual_results ars opts @
        getAssertionResult ars (effective_aggregation opts) MinScore s"
    unfolding unfold by simp
  have c: "opt_minScore opts = None \<and>
      (opt_maxLength opts \<noteq> None \<or> opt_maxNumericValue opts \<noteq> None) \<longrightarrow>
      getAssertionResults (map Some ars) opts = manual_results ars opts"
    unfolding unfold by auto
  from a b c show ?thesis using manual_results_names [of _ ars opts] by metis
qed

theorem getAssertionResults_minScore_default_witness:
  "getAssertionResults (map Some [scored_audit (1 / 2) 1200]) no_options =
     [noURL MinScore (JNum 1) (JNum (1 / 2)) [1 / 2] ''>=''] \<and>
   getAssertionResults (map Some [scored_audit (1 / 2) 1200])
       (no_options\<lparr>opt_minScore := Some (JNum (1 / 4)), opt_maxNumericValue := Some (JNum 1000)\<rparr>) =
     [noURL MaxNumericValue (JNum 1000) (JNum 1200) [1200] ''<=''] \<and>
   getAssertionResults (map Some [scored_audit (1 / 2) 1200])
       (no_options\<lparr>opt_maxNumericValue := Some (JNum 1500)\<rparr>) = []"
  using getAssertionResults_minScore_default [of no_options "[scored_audit (1 / 2) 1200]"]
    getAssertionResults_minScore_default
      [of "no_options\<lparr>opt_minScore := Some (JNum (1 / 4)), opt_maxNumericValue := Some (JNum 1000)\<rparr>"
          "[scored_audit (1 / 2) 1200]"]
    getAssertionResults_minScore_default
      [of "no_options\<lparr>opt_maxNumericValue := Some (JNum 1500)\<rparr>" "[scored_audit (1 / 2) 1200]"]
  by (simp add: getAssertionResults_def getAssertionResult_def no_options_def scored_audit_def
      no_audit_def Let_def List.map_filter_simps getValueForAggregationMethod_def
      starts_with_def js_ge_def)

subsection \<open>The budget deriver\<close>

lemma budget_fold_rows:
  "fold (\<lambda>auditResult st.
           case details auditResult of
             None \<Rightarrow> st
           | Some d \<Rightarrow> (case items d of None \<Rightarrow> st | Some rows \<Rightarrow> fold budget_row_step rows st))
        ars st
   = fold budget_row_step (budget_rows ars) st"
  by (induction ars arbitrary: st) (simp_all add: budget_rows_def split: option.splits)

lemma getBudgetAssertionResults_rows:
  "getBudgetAssertionResults ars = fst (fold budget_row_step (budget_rows ars) ([], {}))"
  by (simp add: getBudgetAssertionResults_def budget_fold_rows)

text \<open>One call of \<^verbatim>\<open>getAssertionResultsForBudgetRow\<close>, as the loop makes it.\<close>

lemma budget_row_call:
  "getAssertionResultsForBudgetRow key observed (js_sub (to_number observed) over) =
     key_results key observed over"
proof (cases observed rule: isFiniteNumber.cases)
  case (1 a)
  then show ?thesis
    by (simp add: getAssertionResultsForBudgetRow_def getAssertionResult_def Let_def
        key_results_def List.map_filter_simps getValueForAggregationMethod_def
        starts_with_def noURL_def)
qed (simp_all add: getAssertionResultsForBudgetRow_def getAssertionResult_def Let_def
      key_results_def noURL_def)

lemma budget_row_step_results:
  "budget_row_step budgetRow (res, seen) =
     (res @ row_results seen budgetRow, seen \<union> marked_keys budgetRow)"
  unfolding budget_row_step_def Let_def budget_row_call row_results_def marked_keys_def
    count_over_def size_key_def count_key_def
  by (auto split: option.splits)

lemma marked_before_Suc:
  "i < length rows \<Longrightarrow> marked_before rows (Suc i) = marked_before rows i \<union> marked_keys (rows ! i)"
  by (simp add: marked_before_def take_Suc_conv_app_nth Un_commute)

lemma marked_before_append:
  "i \<le> length rows \<Longrightarrow> marked_before (rows @ [x]) i = marked_before rows i"
  by (simp add: marked_before_def)

text \<open>The results of the rows before position \<open>n\<close>.\<close>

lemma budget_fold_results:
  "fold budget_row_step rows ([], {}) =
     (concat (map (\<lambda>i. row_results (marked_before rows i) (rows ! i)) [0..<length rows]),
      marked_before rows (length rows))"
proof (induction rows rule: rev_induct)
  case Nil
  show ?case by (simp add: marked_before_def)
next
  case (snoc x xs)
  have same: "map (\<lambda>i. row_results (marked_before (xs @ [x]) i) ((xs @ [x]) ! i)) [0..<length xs] =
      map (\<lambda>i. row_results (marked_before xs i) (xs ! i)) [0..<length xs]"
    by (rule map_cong) (simp_all add: marked_before_append nth_append)
  have last: "marked_before (xs @ [x]) (length xs) = marked_before xs (length xs)"
    by (simp add: marked_before_append)
  have all: "marked_before (xs @ [x]) (Suc (length xs)) =
      marked_before xs (length xs) \<union> marked_keys x"
    using marked_before_Suc [of "length xs" "xs @ [x]"] by (simp add: last)
  show ?case
    using snoc by (simp add: budget_row_step_results same last all)
qed

lemma key_results_property:
  "r \<in> set (key_results key observed over) \<Longrightarrow> auditProperty r = Some key"
proof (cases observed rule: isFiniteNumber.cases)
  case (1 a)
  assume "r \<in> set (key_results key observed over)"
  then show ?thesis using 1
    by (cases "js_le (JNum a) (js_sub (JNum a) over)") (simp_all add: key_results_def noURL_def)
qed (simp_all add: key_results_def noURL_def)

lemma key_results_short: "length (key_results key observed over) \<le> 1"
  by (cases observed rule: isFiniteNumber.cases) (simp_all add: key_results_def)

lemma row_results_property:
  assumes "r \<in> set (row_results seen budgetRow)"
  shows "\<exists>key\<in>marked_keys budgetRow - seen. auditProperty r = Some key"
proof -
  let ?size = "if js_truthy (sizeOverBudget budgetRow) \<and> size_key budgetRow \<notin> seen
      then key_results (size_key budgetRow) (size_val budgetRow)
             (to_number (sizeOverBudget budgetRow))
      else []"
  let ?count = "case count_over budgetRow of
        None \<Rightarrow> []
      | Some over \<Rightarrow>
          if count_key budgetRow \<notin> seen
          then key_results (count_key budgetRow) (requestCount budgetRow) over
          else []"
  from assms consider "r \<in> set ?size" | "r \<in> set ?count"
    unfolding row_results_def by auto
  then show ?thesis
  proof cases
    case 1
    then have t: "js_truthy (sizeOverBudget budgetRow)" "size_key budgetRow \<notin> seen"
      and r: "r \<in> set (key_results (size_key budgetRow) (size_val budgetRow)
                (to_number (sizeOverBudget budgetRow)))"
      by (simp_all split: if_splits)
    have "size_key budgetRow \<in> marked_keys budgetRow - seen"
      using t by (simp add: marked_keys_def)
    then show ?thesis using key_results_property [OF r] by blast
  next
    case 2
    then obtain over where o: "count_over budgetRow = Some over"
      by (cases "count_over budgetRow") simp_all
    with 2 have t: "count_key budgetRow \<notin> seen"
      and r: "r \<in> set (key_results (count_key budgetRow) (requestCount budgetRow) over)"
      by (simp_all split: if_splits)
    have "count_key budgetRow \<in> marked_keys budgetRow - seen"
      using t o by (simp add: marked_keys_def)
    then show ?thesis using key_results_property [OF r] by blast
  qed
qed

lemma distinct_key_results: "distinct (map auditProperty (key_results key observed over))"
  using key_results_short [of key observed over]
  by (cases "key_results key observed over") simp_all

lemma row_results_distinct: "distinct (map auditProperty (row_results seen budgetRow))"
proof -
  have "auditProperty a \<noteq> auditProperty b"
    if "a \<in> set (key_results (size_key budgetRow) (size_val budgetRow) over)"
      and "b \<in> set (key_results (count_key budgetRow) (requestCount budgetRow) over')"
    for a b over over'
    using key_results_property [OF that(1)] key_results_property [OF that(2)]
    by (simp add: size_key_def count_key_def)
  then show ?thesis
    unfolding row_results_def
    by (auto simp add: distinct_key_results split: option.splits)
qed

lemma budget_results_distinct:
  assumes "n \<le> length rows"
  shows "distinct (map auditProperty
           (concat (map (\<lambda>i. row_results (marked_before rows i) (rows ! i)) [0..<n]))) \<and>
         (\<forall>r\<in>set (concat (map (\<lambda>i. row_results (marked_before rows i) (rows ! i)) [0..<n])).
            \<exists>key\<in>marked_before rows n. auditProperty r = Some key)"
  using assms
proof (induction n)
  case 0
  show ?case by simp
next
  case (Suc n)
  let ?f = "\<lambda>i. row_results (marked_before rows i) (rows ! i)"
  let ?old = "concat (map ?f [0..<n])"
  have n: "n < length rows" using Suc.prems by simp
  have ih: "distinct (map auditProperty ?old)"
    "\<forall>r\<in>set ?old. \<exists>key\<in>marked_before rows n. auditProperty r = Some key"
    using Suc.IH n by simp_all
  have new: "\<forall>r\<in>set (?f n). \<exists>key\<in>marked_keys (rows ! n) - marked_before rows n.
      auditProperty r = Some key"
    using row_results_property by blast
  have disj: "auditProperty a \<noteq> auditProperty b" if "a \<in> set ?old" "b \<in> set (?f n)" for a b
    using ih(2) new that by fastforce
  have d: "distinct (map auditProperty (?old @ ?f n))"
    using ih(1) row_results_distinct [of "marked_before rows n" "rows ! n"] disj by auto
  have k: "\<forall>r\<in>set (?old @ ?f n). \<exists>key\<in>marked_before rows (Suc n). auditProperty r = Some key"
    unfolding marked_before_Suc [OF n] using ih(2) new by fastforce
  show ?case using d k by simp
qed

text \<open>
  C7 as stated fails: a row that is over its size budget and carries no \<^verbatim>\<open>size\<close> gives
  a result for its key whose name is \<^verbatim>\<open>auditRan\<close>, with actual 0 and expected 1.
\<close>

theorem getBudgetAssertionResults_counterexample:
  "getBudgetAssertionResults [budget_audit [script_row None 1 None]] =
     [(noURL AuditRan (JNum 1) (JNum 0) [0] ''=='')\<lparr>auditProperty := Some ''script.size''\<rparr>]"
  by (simp add: getBudgetAssertionResults_def budget_row_step_def Let_def budget_audit_def
      script_row_def no_audit_def getAssertionResultsForBudgetRow_def getAssertionResult_def
      noURL_def)

text \<open>
  C7, amended: the results of the budget deriver are, row by row in the order of the
  batch, what each row surfaces for its size key and for its count key, a key being
  evaluated only at the first row of the batch that marks it (a row marks its size key
  when its \<^verbatim>\<open>sizeOverBudget\<close> is truthy and its count key when its \<^verbatim>\<open>countOverBudget\<close>
  is a non-empty string with a digit). What a row surfaces for a key is: when the
  observed size (request count) is a finite number, one \<^verbatim>\<open>maxNumericValue\<close> violation
  with actual equal to it, expected equal to actual minus the amount over budget and
  the key as its property, unless actual is at most expected; when the observed value
  is missing or not finite, one \<^verbatim>\<open>auditRan\<close> result with the key as its property. So
  the results have pairwise different keys: at most one per key over the whole batch.
\<close>

theorem getBudgetAssertionResults_one_per_key:
  "getBudgetAssertionResults ars =
     concat (map (\<lambda>i. row_results (marked_before (budget_rows ars) i) (budget_rows ars ! i))
               [0..<length (budget_rows ars)]) \<and>
   distinct (map auditProperty (getBudgetAssertionResults ars))"
proof -
  have eq: "getBudgetAssertionResults ars =
      concat (map (\<lambda>i. row_results (marked_before (budget_rows ars) i) (budget_rows ars ! i))
                [0..<length (budget_rows ars)])"
    by (simp add: getBudgetAssertionResults_rows budget_fold_results)
  show ?thesis
    using budget_results_distinct [of "length (budget_rows ars)" "budget_rows ars"]
    unfolding eq by simp
qed

theorem getBudgetAssertionResults_one_per_key_witness:
  "getBudgetAssertionResults
     [budget_audit [script_row (Some (JNum 500000)) 100000 (Some ''3 requests'')],
      budget_audit [script_row (Some (JNum 600000)) 200000 (Some ''5 requests'')]] =
     [(noURL MaxNumericValue (JNum 400000) (JNum 500000) [500000] ''<='')
        \<lparr>auditProperty := Some ''script.size''\<rparr>,
      (noURL MaxNumericValue (JNum 7) (JNum 10) [10] ''<='')
        \<lparr>auditProperty := Some ''script.count''\<rparr>] \<and>
   getBudgetAssertionResults
     [budget_audit [script_row (Some (JNum 100)) (- 5) None,
                    script_row (Some (JNum 600)) 200 None]] = []"
proof -
  have d: "to_double 400000 = JNum 400000" "to_double 3 = JNum 3" "to_double 7 = JNum 7"
    "to_double 105 = JNum 105"
    using to_double_int [of 400000] to_double_int [of 3] to_double_int [of 7]
      to_double_int [of 105]
    by simp_all
  have rows: "budget_rows
      [budget_audit [script_row (Some (JNum 500000)) 100000 (Some ''3 requests'')],
       budget_audit [script_row (Some (JNum 600000)) 200000 (Some ''5 requests'')]] =
      [script_row (Some (JNum 500000)) 100000 (Some ''3 requests''),
       script_row (Some (JNum 600000)) 200000 (Some ''5 requests'')]"
    "budget_rows
      [budget_audit [script_row (Some (JNum 100)) (- 5) None,
                     script_row (Some (JNum 600)) 200 None]] =
      [script_row (Some (JNum 100)) (- 5) None, script_row (Some (JNum 600)) 200 None]"
    by (simp_all add: budget_rows_def budget_audit_def no_audit_def)
  have n: "Number_of_digits ''3'' = JNum 3"
    by (simp add: Number_of_digits_def d)
  have m: "match_digits ''3 requests'' = Some ''3''" "match_digits ''5 requests'' = Some ''5''"
    by (simp_all add: match_digits_def is_digit_def)
  show ?thesis
    using getBudgetAssertionResults_one_per_key
      [of "[budget_audit [script_row (Some (JNum 500000)) 100000 (Some ''3 requests'')],
            budget_audit [script_row (Some (JNum 600000)) 200000 (Some ''5 requests'')]]"]
      getBudgetAssertionResults_one_per_key
      [of "[budget_audit [script_row (Some (JNum 100)) (- 5) None,
                          script_row (Some (JNum 600)) 200 None]]"]
    unfolding rows
    by (simp add: row_results_def key_results_def marked_before_def marked_keys_def
        count_over_def size_key_def count_key_def script_row_def d n m noURL_def)
qed

subsection \<open>Facts about the resolver and the loop over the audits\<close>

lemma collect_all_empty:
  "\<forall>x\<in>set xs. f x = Inr [] \<Longrightarrow> collect f xs = Inr []"
  by (induction xs) simp_all

lemma set_uniq: "set (uniq xs) = set xs"
  by (simp add: uniq_def)

lemma assertionKey_audit_to_assert_of:
  "ata_assertionKey (audit_to_assert_of ext lhrs key) = key"
  by (simp add: audit_to_assert_of_def Let_def)

lemma split_dot_nonempty: "split_dot s \<noteq> []"
  by (induction s) (simp_all split: list.splits)

lemma split_dot_single: "(tl (split_dot s) = []) = (CHR ''.'' \<notin> set s)"
proof (induction s)
  case Nil
  show ?case by simp
next
  case (Cons c cs)
  then show ?case using split_dot_nonempty [of cs]
    by (cases "split_dot cs") auto
qed

lemma auditProperty_audit_to_assert_of:
  "ata_auditProperty (audit_to_assert_of ext lhrs key) =
     (if CHR ''.'' \<in> set key then Some (tl (split_dot key)) else None)"
  using split_dot_single [of key] by (simp add: audit_to_assert_of_def Let_def)

lemma resolved_audits:
  assumes "resolveAssertionOptionsAndLhrs ext baseOptions unfilteredLhrs = Inr r"
  shows "res_auditsToAssert r =
           map (audit_to_assert_of ext (res_lhrs r))
             (uniq (map (kebabCase ext) (map fst (res_assertions r))))"
  using assms unfolding resolveAssertionOptionsAndLhrs_def Let_def
  by (auto split: sum.splits option.splits if_splits)

lemma collect_error:
  "x \<in> set xs \<Longrightarrow> f x = Inl e \<Longrightarrow> \<exists>e'. collect f xs = Inl e'"
  by (induction xs) (auto split: sum.splits)

lemma get_property_Missing:
  "k \<notin> set (map fst xs) \<Longrightarrow> k \<notin> set Object_prototype_keys \<Longrightarrow>
     get_property (map_of xs) k = Missing"
proof -
  assume "k \<notin> set (map fst xs)" and p: "k \<notin> set Object_prototype_keys"
  then have "map_of xs k = None" by (simp add: map_of_eq_None_iff)
  then show ?thesis using p by (simp add: get_property_def)
qed

lemma get_property_Inherited:
  "k \<notin> set (map fst xs) \<Longrightarrow> k \<in> set Object_prototype_keys \<Longrightarrow>
     get_property (map_of xs) k = Inherited"
proof -
  assume "k \<notin> set (map fst xs)" and p: "k \<in> set Object_prototype_keys"
  then have "map_of xs k = None" by (simp add: map_of_eq_None_iff)
  then show ?thesis using p by (simp add: get_property_def)
qed

lemma assert_audit_miss:
  assumes "get_property (map_of (res_assertions r)) (ata_assertionKey a) = Missing"
  shows "assert_audit r a = Inr []"
  using assms by (simp add: assert_audit_def read_assertion_def Let_def)

lemma assert_audit_inherited:
  assumes "get_property (map_of (res_assertions r)) (ata_assertionKey a) = Inherited"
  shows "assert_audit r a = Inl TypeError"
  using assms by (simp add: assert_audit_def read_assertion_def Let_def)


text \<open>The definitions that evaluate the worked examples.\<close>

lemmas example_defs =
  example_externals_def report_def config_def matrix_options_def fcp_config_def
  fcp_report_def fcp_violation_def audit_missing_def no_options_def numeric_audit_def
  no_audit_def noURL_def

lemmas evaluation_defs =
  getAllAssertionResults_def getAllFilteredAssertionResults_def
  resolveAssertionOptionsAndLhrs_def assert_audit_def audit_to_assert_of_def
  getAssertionResultsForAudit_def getCategoryAssertionResults_def getAssertionResults_def
  getAssertionResult_def getValueForAggregationMethod_def groupBy_def uniq_def
  truthy_string_def invalid_assertion_def Let_def List.map_filter_simps starts_with_def
  base_options.truncate_def is_lower_def is_upper_def to_lower_def get_property_def
  Object_prototype_keys_def audit_of_def read_assertion_def

subsection \<open>The assertion matrix\<close>

text \<open>
  C8 as stated fails: with \<^verbatim>\<open>assertMatrix\<close> and \<^verbatim>\<open>matchingUrlPattern\<close> both set at the
  top level nothing is thrown; the pattern is ignored (it matches no report here) and
  the matrix entry is evaluated.
\<close>

theorem getAllAssertionResults_assertMatrix_counterexample:
  "assertMatrix (matrix_options (Some ''example.org'') [fcp_config]) = Some [fcp_config] \<and>
   matchingUrlPattern (matrix_options (Some ''example.org'') [fcp_config]) =
     Some ''example.org'' \<and>
   getAllAssertionResults example_externals
     (matrix_options (Some ''example.org'') [fcp_config]) [fcp_report] = Inr [fcp_violation]"
  by (simp add: example_defs evaluation_defs)

text \<open>
  C8, amended: with \<^verbatim>\<open>assertMatrix\<close> present, the orchestrator throws "Cannot use
  assertMatrix with other options" when \<^verbatim>\<open>assertions\<close>, a non-empty \<^verbatim>\<open>preset\<close>, a
  non-empty \<^verbatim>\<open>budgetsFile\<close> or an \<^verbatim>\<open>aggregationMethod\<close> is set beside it; when none of
  them is, it evaluates every matrix entry against every URL group, in the order of the
  groups; and a top-level \<^verbatim>\<open>matchingUrlPattern\<close> beside the matrix changes nothing.
\<close>

theorem getAllAssertionResults_assertMatrix:
  assumes "assertMatrix opts = Some matrix"
  shows "(assertions opts \<noteq> None \<or> truthy_string (preset opts) \<or>
          truthy_string (budgetsFile opts) \<or> aggregationMethod opts \<noteq> None \<longrightarrow>
            getAllAssertionResults ext opts lhrs =
              Inl (Error_message ''Cannot use assertMatrix with other options'')) \<and>
         (assertions opts = None \<and> \<not> truthy_string (preset opts) \<and>
          \<not> truthy_string (budgetsFile opts) \<and> aggregationMethod opts = None \<longrightarrow>
            getAllAssertionResults ext opts lhrs =
              collect (\<lambda>lhrSet.
                         collect (\<lambda>baseOptions.
                                    getAllFilteredAssertionResults ext baseOptions lhrSet)
                           matrix)
                (groupBy lhrs finalUrl)) \<and>
         getAllAssertionResults ext (opts\<lparr>matchingUrlPattern := pattern\<rparr>) lhrs =
           getAllAssertionResults ext opts lhrs"
  using assms by (simp add: getAllAssertionResults_def Let_def)

theorem getAllAssertionResults_assertMatrix_witness:
  "getAllAssertionResults example_externals
     ((matrix_options None [fcp_config])\<lparr>aggregationMethod := Some Median\<rparr>) [fcp_report] =
     Inl (Error_message ''Cannot use assertMatrix with other options'') \<and>
   getAllAssertionResults example_externals
     ((matrix_options None [fcp_config])\<lparr>matchingUrlPattern := Some ''example.org''\<rparr>)
     [fcp_report] =
     getAllAssertionResults example_externals (matrix_options None [fcp_config]) [fcp_report]"
  using getAllAssertionResults_assertMatrix
    [of "(matrix_options None [fcp_config])\<lparr>aggregationMethod := Some Median\<rparr>"
        "[fcp_config]" example_externals "[fcp_report]" None]
    getAllAssertionResults_assertMatrix
    [of "matrix_options None [fcp_config]" "[fcp_config]" example_externals "[fcp_report]"
        "Some ''example.org''"]
  by (simp add: matrix_options_def)

subsection \<open>The property path of a category assertion\<close>

text \<open>
  C9 as stated fails for zero segments: the key \<^verbatim>\<open>categories\<close> has no property path,
  nothing is thrown, and the key is evaluated as an ordinary audit id, which gives an
  \<^verbatim>\<open>auditRan\<close> result here.
\<close>

theorem categories_property_path_counterexample:
  "tl (split_dot ''categories'') = [] \<and>
   getAllFilteredAssertionResults example_externals
     (config [(''categories'', LevelOnly Error)]) [report ''http://x'' []] =
     Inr [audit_missing ''http://x'' ''categories'']"
  by (simp add: example_defs evaluation_defs)

text \<open>
  C9, amended: a category assertion whose property path is present and does not have
  exactly one segment raises the error "Invalid resource-summary assertion" with the
  path, joined by dots, in quotes, and produces no result; a \<^verbatim>\<open>categories\<close> key without a
  property path is not routed to the category deriver but evaluated as an ordinary audit
  id, without this error; and the resolver yields no property path exactly for a key
  without a dot, never an empty one.
\<close>

theorem categories_property_path:
  "(length p \<noteq> 1 \<longrightarrow>
      getCategoryAssertionResults p opts lhrs = Inl (invalid_assertion p) \<and>
      getAssertionResultsForAudit ''categories'' (Some p) ars opts lhrs =
        Inl (invalid_assertion p)) \<and>
   getAssertionResultsForAudit ''categories'' None ars opts lhrs =
     Inr (getAssertionResults ars opts) \<and>
   ata_auditProperty (audit_to_assert_of ext lhrs key) \<noteq> Some [] \<and>
   (ata_auditProperty (audit_to_assert_of ext lhrs key) = None \<longleftrightarrow> CHR ''.'' \<notin> set key)"
proof -
  have a: "length p \<noteq> 1 \<longrightarrow>
      getCategoryAssertionResults p opts lhrs = Inl (invalid_assertion p) \<and>
      getAssertionResultsForAudit ''categories'' (Some p) ars opts lhrs =
        Inl (invalid_assertion p)"
    by (simp add: getCategoryAssertionResults_def getAssertionResultsForAudit_def)
  have b: "getAssertionResultsForAudit ''categories'' None ars opts lhrs =
     Inr (getAssertionResults ars opts)"
    by (simp add: getAssertionResultsForAudit_def)
  have c: "ata_auditProperty (audit_to_assert_of ext lhrs key) \<noteq> Some []"
    using split_dot_single [of key] by (simp add: auditProperty_audit_to_assert_of)
  have d: "ata_auditProperty (audit_to_assert_of ext lhrs key) = None \<longleftrightarrow> CHR ''.'' \<notin> set key"
    by (simp add: auditProperty_audit_to_assert_of)
  from a b c d show ?thesis by blast
qed

theorem categories_property_path_witness:
  "getAssertionResultsForAudit ''categories'' (Some [''a'', ''b'']) [None] no_options
     [report ''http://x'' []] =
     Inl (Error_message
            (''Invalid resource-summary assertion '' @ [CHR 0x22] @ ''a.b'' @ [CHR 0x22])) \<and>
   ata_auditProperty
     (audit_to_assert_of example_externals [report ''http://x'' []] ''categories.a.b'') =
     Some [''a'', ''b'']"
  using categories_property_path
    [of "[''a'', ''b'']" no_options "[report ''http://x'' []]" "[None]" example_externals
        "''categories.a.b''"]
  by (simp add: invalid_assertion_def audit_to_assert_of_def Let_def)

subsection \<open>Keys that are not in normal form\<close>

text \<open>
  C10 as stated fails: when the mapping holds a key that is not in normal form together
  with its normal form, the audit enumerated under the normal form finds the other entry,
  its level is not \<^verbatim>\<open>off\<close>, and a violation is produced; and when the normal form is the
  name of a member of \<^verbatim>\<open>Object.prototype\<close>, the lookup finds that member and the
  evaluation throws a TypeError.
\<close>

theorem unnormalized_key_counterexample:
  "kebabCase example_externals ''firstContentfulPaint'' = ''first-contentful-paint'' \<and>
   map_of [(''firstContentfulPaint'', LevelOnly Warn),
           (''first-contentful-paint'', LevelOnly Error)]
     (kebabCase example_externals ''firstContentfulPaint'') = Some (LevelOnly Error) \<and>
   getAllFilteredAssertionResults example_externals
     (config [(''firstContentfulPaint'', LevelOnly Warn),
              (''first-contentful-paint'', LevelOnly Error)])
     [report ''http://x'' []] =
     Inr [audit_missing ''http://x'' ''first-contentful-paint''] \<and>
   kebabCase example_externals ''Constructor'' = ''constructor'' \<and>
   getAllFilteredAssertionResults example_externals
     (config [(''Constructor'', LevelOnly Error)]) [report ''http://x'' []] = Inl TypeError"
  by (simp add: example_defs evaluation_defs)

text \<open>
  C10, amended: for every key of the resolved assertions mapping whose normal form is not
  itself a key of the mapping, the audit is enumerated under the normal form. When the
  normal form is not the name of a member of \<^verbatim>\<open>Object.prototype\<close> either, the lookup of
  the normal form in the mapping misses, the level defaults to \<^verbatim>\<open>off\<close> and the round of
  the loop for that audit pushes no result and raises no error; when this holds for every
  key, the whole evaluation returns no result. When the normal form is the name of such
  a member, the round of the loop throws a TypeError, and with it the whole evaluation
  of a non-empty set of reports fails.
\<close>

theorem unnormalized_key_skipped:
  assumes "resolveAssertionOptionsAndLhrs ext baseOptions unfilteredLhrs = Inr r"
  shows "(\<forall>k\<in>set (map fst (res_assertions r)).
            kebabCase ext k \<notin> set (map fst (res_assertions r)) \<longrightarrow>
              kebabCase ext k \<in> set (map ata_assertionKey (res_auditsToAssert r)) \<and>
              (kebabCase ext k \<notin> set Object_prototype_keys \<longrightarrow>
                 get_property (map_of (res_assertions r)) (kebabCase ext k) = Missing \<and>
                 map_sum id fst (read_assertion (res_assertions r) (kebabCase ext k)) = Inr Off \<and>
                 (\<forall>a\<in>set (res_auditsToAssert r).
                    ata_assertionKey a = kebabCase ext k \<longrightarrow> assert_audit r a = Inr [])) \<and>
              (kebabCase ext k \<in> set Object_prototype_keys \<longrightarrow>
                 (\<forall>a\<in>set (res_auditsToAssert r).
                    ata_assertionKey a = kebabCase ext k \<longrightarrow> assert_audit r a = Inl TypeError) \<and>
                 (res_lhrs r \<noteq> [] \<longrightarrow>
                    (\<exists>e. getAllFilteredAssertionResults ext baseOptions unfilteredLhrs =
                       Inl e)))) \<and>
         ((\<forall>k\<in>set (map fst (res_assertions r)).
             kebabCase ext k \<notin> set (map fst (res_assertions r)) \<and>
             kebabCase ext k \<notin> set Object_prototype_keys) \<longrightarrow>
            getAllFilteredAssertionResults ext baseOptions unfilteredLhrs = Inr [])"
proof -
  let ?keys = "map fst (res_assertions r)"
  have audits: "map ata_assertionKey (res_auditsToAssert r) = uniq (map (kebabCase ext) ?keys)"
    unfolding resolved_audits [OF assms] by (simp add: assertionKey_audit_to_assert_of comp_def)
  have enumerated: "kebabCase ext k \<in> set (map ata_assertionKey (res_auditsToAssert r))"
    if k: "k \<in> set ?keys" for k
  proof -
    have "kebabCase ext k \<in> kebabCase ext ` set ?keys"
      using k by (rule imageI)
    then have "kebabCase ext k \<in> set (uniq (map (kebabCase ext) ?keys))"
      by (simp only: set_uniq set_map)
    then show ?thesis by (simp only: audits)
  qed
  have skipped: "get_property (map_of (res_assertions r)) (kebabCase ext k) = Missing \<and>
      map_sum id fst (read_assertion (res_assertions r) (kebabCase ext k)) = Inr Off \<and>
      (\<forall>a\<in>set (res_auditsToAssert r).
         ata_assertionKey a = kebabCase ext k \<longrightarrow> assert_audit r a = Inr [])"
    if n: "kebabCase ext k \<notin> set ?keys" and p: "kebabCase ext k \<notin> set Object_prototype_keys"
    for k
  proof -
    have m: "get_property (map_of (res_assertions r)) (kebabCase ext k) = Missing"
      using n p by (rule get_property_Missing)
    then show ?thesis using assert_audit_miss [of r]
      by (simp add: read_assertion_def)
  qed
  have thrown: "(\<forall>a\<in>set (res_auditsToAssert r).
        ata_assertionKey a = kebabCase ext k \<longrightarrow> assert_audit r a = Inl TypeError) \<and>
      (res_lhrs r \<noteq> [] \<longrightarrow>
         (\<exists>e. getAllFilteredAssertionResults ext baseOptions unfilteredLhrs = Inl e))"
    if k: "k \<in> set ?keys" and n: "kebabCase ext k \<notin> set ?keys"
      and p: "kebabCase ext k \<in> set Object_prototype_keys"
    for k
  proof -
    have i: "get_property (map_of (res_assertions r)) (kebabCase ext k) = Inherited"
      using n p by (rule get_property_Inherited)
    have each: "\<forall>a\<in>set (res_auditsToAssert r).
        ata_assertionKey a = kebabCase ext k \<longrightarrow> assert_audit r a = Inl TypeError"
      using i assert_audit_inherited [of r] by simp
    obtain a where a: "a \<in> set (res_auditsToAssert r)" "ata_assertionKey a = kebabCase ext k"
      using enumerated [OF k] by auto
    then have "assert_audit r a = Inl TypeError" using each by blast
    from collect_error [of a "res_auditsToAssert r" "assert_audit r" TypeError, OF a(1) this]
    have "res_lhrs r \<noteq> [] \<longrightarrow>
        (\<exists>e. getAllFilteredAssertionResults ext baseOptions unfilteredLhrs = Inl e)"
      by (simp add: getAllFilteredAssertionResults_def assms)
    with each show ?thesis by blast
  qed
  have all: "getAllFilteredAssertionResults ext baseOptions unfilteredLhrs = Inr []"
    if h: "\<forall>k\<in>set ?keys. kebabCase ext k \<notin> set ?keys \<and>
             kebabCase ext k \<notin> set Object_prototype_keys"
  proof -
    have "assert_audit r a = Inr []" if a: "a \<in> set (res_auditsToAssert r)" for a
    proof -
      have "ata_assertionKey a \<in> set (uniq (map (kebabCase ext) ?keys))"
        using a audits by (metis image_eqI set_map)
      then have "ata_assertionKey a \<in> kebabCase ext ` set ?keys"
        by (simp only: set_uniq set_map)
      then obtain k where k: "k \<in> set ?keys" "ata_assertionKey a = kebabCase ext k"
        by blast
      from h k(1) have "kebabCase ext k \<notin> set ?keys"
        and "kebabCase ext k \<notin> set Object_prototype_keys"
        by blast+
      then have "get_property (map_of (res_assertions r)) (kebabCase ext k) = Missing"
        by (rule get_property_Missing)
      then have "get_property (map_of (res_assertions r)) (ata_assertionKey a) = Missing"
        by (simp only: k(2))
      then show ?thesis by (rule assert_audit_miss)
    qed
    then have "collect (assert_audit r) (res_auditsToAssert r) = Inr []"
      by (simp add: collect_all_empty)
    then show ?thesis by (simp add: getAllFilteredAssertionResults_def assms)
  qed
  show ?thesis using enumerated skipped thrown all by blast
qed

theorem unnormalized_key_skipped_witness:
  "kebabCase example_externals ''firstContentfulPaint'' = ''first-contentful-paint'' \<and>
   getAllFilteredAssertionResults example_externals
     (config [(''firstContentfulPaint'', LevelOnly Error)]) [report ''http://x'' []] = Inr []"
proof -
  have "\<exists>r. resolveAssertionOptionsAndLhrs example_externals
       (config [(''firstContentfulPaint'', LevelOnly Error)]) [report ''http://x'' []] = Inr r \<and>
     res_assertions r = [(''firstContentfulPaint'', LevelOnly Error)]"
    by (simp add: example_defs resolveAssertionOptionsAndLhrs_def Let_def)
  then obtain r where r:
    "resolveAssertionOptionsAndLhrs example_externals
       (config [(''firstContentfulPaint'', LevelOnly Error)]) [report ''http://x'' []] = Inr r"
    and a: "res_assertions r = [(''firstContentfulPaint'', LevelOnly Error)]"
    by blast
  have k: "kebabCase example_externals ''firstContentfulPaint'' = ''first-contentful-paint''"
    by (simp add: example_externals_def is_lower_def is_upper_def to_lower_def)
  have keys: "\<forall>k\<in>set (map fst (res_assertions r)).
      kebabCase example_externals k \<notin> set (map fst (res_assertions r)) \<and>
      kebabCase example_externals k \<notin> set Object_prototype_keys"
    by (simp add: a k Object_prototype_keys_def)
  have "getAllFilteredAssertionResults example_externals
      (config [(''firstContentfulPaint'', LevelOnly Error)]) [report ''http://x'' []] = Inr []"
    by (rule unnormalized_key_skipped [OF r, THEN conjunct2, THEN mp, OF keys])
  with k show ?thesis by (rule conjI)
qed

end
